theory Spec2Isabelle
  imports Main "HOL-Library.Word" "HOL-Library.Sublist" "HOL-Library.Monad_Syntax"
    "HOL-Library.AList"
begin

section \<open>The report parser (smaps.go)\<close>

subsection \<open>Data model\<close>

text \<open>
  Go's \<open>string\<close> is a byte sequence; so is \<^typ>\<open>string\<close>. Go's \<open>int64\<close> is a 64-bit
  word whose \<open>+\<close> and \<open>*\<close> wrap around; \<open>sint\<close> reads its signed value.
\<close>

type_synonym int64 = "64 word"

text \<open>The struct \<open>SmapsMapping\<close>: six header fields and the key-value fields in bytes.\<close>

record SmapsMapping =
  AddrRange :: string
  Perms :: string
  Offset :: string
  Dev :: string
  Inode :: string
  Path :: string
  SizeBytes :: int64
  RssBytes :: int64
  PssBytes :: int64
  PssDirtyBytes :: int64
  SharedCleanBytes :: int64
  SharedDirtyBytes :: int64
  PrivateCleanBytes :: int64
  PrivateDirtyBytes :: int64
  ReferencedBytes :: int64
  AnonymousBytes :: int64
  LazyFreeBytes :: int64
  AnonHugePagesBytes :: int64
  ShmemPmdMappedBytes :: int64
  SharedHugetlbBytes :: int64
  PrivateHugetlbBytes :: int64
  SwapBytes :: int64
  SwapPssBytes :: int64
  KernelPageSizeBytes :: int64
  MMUPageSizeBytes :: int64
  LockedBytes :: int64

text \<open>
  The key-value fields of the struct, named so that the \<open>switch\<close> of \<open>ParseSmaps\<close> and
  the calls of \<open>setMetrics\<close> can be told which field they touch. The order is the
  struct's.
\<close>

datatype field =
  FSize | FRss | FPss | FPssDirty | FSharedClean | FSharedDirty | FPrivateClean
  | FPrivateDirty | FReferenced | FAnonymous | FLazyFree | FAnonHugePages
  | FShmemPmdMapped | FSharedHugetlb | FPrivateHugetlb | FSwap | FSwapPss
  | FKernelPageSize | FMMUPageSize | FLocked

fun getField :: "field \<Rightarrow> SmapsMapping \<Rightarrow> int64" where
  "getField FSize m = SizeBytes m"
| "getField FRss m = RssBytes m"
| "getField FPss m = PssBytes m"
| "getField FPssDirty m = PssDirtyBytes m"
| "getField FSharedClean m = SharedCleanBytes m"
| "getField FSharedDirty m = SharedDirtyBytes m"
| "getField FPrivateClean m = PrivateCleanBytes m"
| "getField FPrivateDirty m = PrivateDirtyBytes m"
| "getField FReferenced m = ReferencedBytes m"
| "getField FAnonymous m = AnonymousBytes m"
| "getField FLazyFree m = LazyFreeBytes m"
| "getField FAnonHugePages m = AnonHugePagesBytes m"
| "getField FShmemPmdMapped m = ShmemPmdMappedBytes m"
| "getField FSharedHugetlb m = SharedHugetlbBytes m"
| "getField FPrivateHugetlb m = PrivateHugetlbBytes m"
| "getField FSwap m = SwapBytes m"
| "getField FSwapPss m = SwapPssBytes m"
| "getField FKernelPageSize m = KernelPageSizeBytes m"
| "getField FMMUPageSize m = MMUPageSizeBytes m"
| "getField FLocked m = LockedBytes m"

text \<open>The statement \<open>mapping.X += valBytes\<close>, for the field \<open>X\<close>.\<close>

fun addField :: "field \<Rightarrow> int64 \<Rightarrow> SmapsMapping \<Rightarrow> SmapsMapping" where
  "addField FSize v m = m\<lparr>SizeBytes := SizeBytes m + v\<rparr>"
| "addField FRss v m = m\<lparr>RssBytes := RssBytes m + v\<rparr>"
| "addField FPss v m = m\<lparr>PssBytes := PssBytes m + v\<rparr>"
| "addField FPssDirty v m = m\<lparr>PssDirtyBytes := PssDirtyBytes m + v\<rparr>"
| "addField FSharedClean v m = m\<lparr>SharedCleanBytes := SharedCleanBytes m + v\<rparr>"
| "addField FSharedDirty v m = m\<lparr>SharedDirtyBytes := SharedDirtyBytes m + v\<rparr>"
| "addField FPrivateClean v m = m\<lparr>PrivateCleanBytes := PrivateCleanBytes m + v\<rparr>"
| "addField FPrivateDirty v m = m\<lparr>PrivateDirtyBytes := PrivateDirtyBytes m + v\<rparr>"
| "addField FReferenced v m = m\<lparr>ReferencedBytes := ReferencedBytes m + v\<rparr>"
| "addField FAnonymous v m = m\<lparr>AnonymousBytes := AnonymousBytes m + v\<rparr>"
| "addField FLazyFree v m = m\<lparr>LazyFreeBytes := LazyFreeBytes m + v\<rparr>"
| "addField FAnonHugePages v m = m\<lparr>AnonHugePagesBytes := AnonHugePagesBytes m + v\<rparr>"
| "addField FShmemPmdMapped v m = m\<lparr>ShmemPmdMappedBytes := ShmemPmdMappedBytes m + v\<rparr>"
| "addField FSharedHugetlb v m = m\<lparr>SharedHugetlbBytes := SharedHugetlbBytes m + v\<rparr>"
| "addField FPrivateHugetlb v m = m\<lparr>PrivateHugetlbBytes := PrivateHugetlbBytes m + v\<rparr>"
| "addField FSwap v m = m\<lparr>SwapBytes := SwapBytes m + v\<rparr>"
| "addField FSwapPss v m = m\<lparr>SwapPssBytes := SwapPssBytes m + v\<rparr>"
| "addField FKernelPageSize v m = m\<lparr>KernelPageSizeBytes := KernelPageSizeBytes m + v\<rparr>"
| "addField FMMUPageSize v m = m\<lparr>MMUPageSizeBytes := MMUPageSizeBytes m + v\<rparr>"
| "addField FLocked v m = m\<lparr>LockedBytes := LockedBytes m + v\<rparr>"

text \<open>
  The case labels of the \<open>switch key\<close> in \<open>ParseSmaps\<close>, in the order of the source,
  each with the field its branch adds to. A key with no label has no branch.
\<close>

definition switchKey :: "string \<Rightarrow> field option" where
  "switchKey key =
    (if key = ''Size'' then Some FSize
     else if key = ''KernelPageSize'' then Some FKernelPageSize
     else if key = ''MMUPageSize'' then Some FMMUPageSize
     else if key = ''Rss'' then Some FRss
     else if key = ''Pss'' then Some FPss
     else if key = ''Pss_Dirty'' then Some FPssDirty
     else if key = ''Shared_Clean'' then Some FSharedClean
     else if key = ''Shared_Dirty'' then Some FSharedDirty
     else if key = ''Private_Clean'' then Some FPrivateClean
     else if key = ''Private_Dirty'' then Some FPrivateDirty
     else if key = ''Referenced'' then Some FReferenced
     else if key = ''Anonymous'' then Some FAnonymous
     else if key = ''LazyFree'' then Some FLazyFree
     else if key = ''AnonHugePages'' then Some FAnonHugePages
     else if key = ''ShmemPmdMapped'' then Some FShmemPmdMapped
     else if key = ''Shared_Hugetlb'' then Some FSharedHugetlb
     else if key = ''Private_Hugetlb'' then Some FPrivateHugetlb
     else if key = ''Swap'' then Some FSwap
     else if key = ''SwapPss'' then Some FSwapPss
     else if key = ''Locked'' then Some FLocked
     else None)"

subsection \<open>The two regular expressions\<close>

text \<open>
  Character classes of the patterns. Go's \<open>regexp\<close> (RE2 syntax) reads \<open>\d\<close> as
  \<open>[0-9]\<close> and \<open>\s\<close> as \<open>[\t\n\f\r ]\<close>: the vertical tab is not in \<open>\s\<close>.
\<close>

definition isDigit :: "char \<Rightarrow> bool" where
  "isDigit c = (c \<in> set ''0123456789'')"

definition isHex :: "char \<Rightarrow> bool" where
  "isHex c = (c \<in> set ''0123456789abcdefABCDEF'')"

definition isPerm :: "char \<Rightarrow> bool" where
  "isPerm c = (c \<in> set ''rwxps-'')"

definition isDev :: "char \<Rightarrow> bool" where
  "isDev c = (isHex c \<or> c = CHR '':'')"

definition isKeyChar :: "char \<Rightarrow> bool" where
  "isKeyChar c = (c \<in> set ''ABCDEFGHIJKLMNOPQRSTUVWXYZabcdefghijklmnopqrstuvwxyz_'')"

definition isReSpace :: "char \<Rightarrow> bool" where
  "isReSpace c = (c \<in> set [CHR 0x09, CHR 0x0A, CHR 0x0C, CHR 0x0D, CHR 0x20])"

text \<open>
  Pieces of a pattern, each returning what it matched and the rest of the input:
  \<open>rePlus P\<close> is the greedy \<open>[P]+\<close>, \<open>reTimes n P\<close> is \<open>[P]{n}\<close>, \<open>reLit p\<close> is the
  literal \<open>p\<close>. In both patterns every class is followed by a literal character outside
  the class (or by a class disjoint from it), so the greedy match is the only
  candidate: giving back a character leaves a character of the class where the
  pattern needs one that is not.
\<close>

definition rePlus :: "(char \<Rightarrow> bool) \<Rightarrow> string \<Rightarrow> (string \<times> string) option" where
  "rePlus P s = (if takeWhile P s = [] then None else Some (takeWhile P s, dropWhile P s))"

definition reTimes :: "nat \<Rightarrow> (char \<Rightarrow> bool) \<Rightarrow> string \<Rightarrow> (string \<times> string) option" where
  "reTimes n P s =
    (if n \<le> length s \<and> list_all P (take n s) then Some (take n s, drop n s) else None)"

definition reLit :: "string \<Rightarrow> string \<Rightarrow> string option" where
  "reLit p s = (if prefix p s then Some (drop (length p) s) else None)"

text \<open>
  The end of \<open>headerRe\<close>, \<open>(?:\s+(.*))?$\<close>, on what follows the inode: nothing (the
  group does not take part and \<open>FindStringSubmatch\<close> gives \<open>""\<close> for it), or white
  space of \<open>\s\<close> and then the capture, which runs to the end of the text and, as \<open>.\<close>
  does not match a newline, holds none.
\<close>

definition headerTail :: "string \<Rightarrow> string option" where
  "headerTail r =
    (if r = [] then Some []
     else if isReSpace (hd r) \<and> CHR 0x0A \<notin> set (dropWhile isReSpace r)
       then Some (dropWhile isReSpace r)
     else None)"

text \<open>
  \<open>headerRe.FindStringSubmatch(line)\<close> for
  \<^verbatim>\<open>^([0-9a-fA-F]+-[0-9a-fA-F]+) ([rwxps-]{4}) ([0-9a-fA-F]+) ([0-9a-fA-F:]+) (\d+)(?:\s+(.*))?$\<close>:
  \<open>None\<close> is Go's \<open>nil\<close>, otherwise the list holds the whole match and the six groups.
\<close>

definition headerRe :: "string \<Rightarrow> string list option" where
  "headerRe line = do {
     (lo, r) \<leftarrow> rePlus isHex line;
     r \<leftarrow> reLit ''-'' r;
     (hi, r) \<leftarrow> rePlus isHex r;
     r \<leftarrow> reLit '' '' r;
     (perms, r) \<leftarrow> reTimes 4 isPerm r;
     r \<leftarrow> reLit '' '' r;
     (off, r) \<leftarrow> rePlus isHex r;
     r \<leftarrow> reLit '' '' r;
     (dev, r) \<leftarrow> rePlus isDev r;
     r \<leftarrow> reLit '' '' r;
     (inode, r) \<leftarrow> rePlus isDigit r;
     path \<leftarrow> headerTail r;
     Some [line, lo @ ''-'' @ hi, perms, off, dev, inode, path]
   }"

text \<open>
  \<open>kvRe.FindStringSubmatch(line)\<close> for \<^verbatim>\<open>^([A-Za-z_]+):\s+(\d+) kB\<close>. The pattern is
  anchored at the start only: whatever follows \<open>kB\<close> is not looked at.
\<close>

definition kvRe :: "string \<Rightarrow> string list option" where
  "kvRe line = do {
     (key, r) \<leftarrow> rePlus isKeyChar line;
     r \<leftarrow> reLit '':'' r;
     (ws, r) \<leftarrow> rePlus isReSpace r;
     (num, r) \<leftarrow> rePlus isDigit r;
     r \<leftarrow> reLit '' kB'' r;
     Some [key @ '':'' @ ws @ num @ '' kB'', key, num]
   }"

subsection \<open>Library functions used by the parser\<close>

text \<open>
  \<open>strings.TrimSpace\<close> removes leading and trailing Unicode white space. On UTF-8
  bytes these are the encodings of U+0009 to U+000D, U+0020, U+0085, U+00A0, U+1680,
  U+2000 to U+200A, U+2028, U+2029, U+202F, U+205F and U+3000. No encoding is a prefix
  or a suffix of another, and UTF-8 decodes the same from either end, so trimming is
  removing these byte sequences from the front and from the back.
\<close>

definition unicodeSpaces :: "string list" where
  "unicodeSpaces =
    [[CHR 0x09], [CHR 0x0A], [CHR 0x0B], [CHR 0x0C], [CHR 0x0D], [CHR 0x20],
     [CHR 0xC2, CHR 0x85], [CHR 0xC2, CHR 0xA0],
     [CHR 0xE1, CHR 0x9A, CHR 0x80],
     [CHR 0xE2, CHR 0x80, CHR 0x80], [CHR 0xE2, CHR 0x80, CHR 0x81],
     [CHR 0xE2, CHR 0x80, CHR 0x82], [CHR 0xE2, CHR 0x80, CHR 0x83],
     [CHR 0xE2, CHR 0x80, CHR 0x84], [CHR 0xE2, CHR 0x80, CHR 0x85],
     [CHR 0xE2, CHR 0x80, CHR 0x86], [CHR 0xE2, CHR 0x80, CHR 0x87],
     [CHR 0xE2, CHR 0x80, CHR 0x88], [CHR 0xE2, CHR 0x80, CHR 0x89],
     [CHR 0xE2, CHR 0x80, CHR 0x8A],
     [CHR 0xE2, CHR 0x80, CHR 0xA8], [CHR 0xE2, CHR 0x80, CHR 0xA9],
     [CHR 0xE2, CHR 0x80, CHR 0xAF],
     [CHR 0xE2, CHR 0x81, CHR 0x9F],
     [CHR 0xE3, CHR 0x80, CHR 0x80]]"

function trimPrefixes :: "string list \<Rightarrow> string \<Rightarrow> string" where
  "trimPrefixes ps s =
    (case find (\<lambda>p. p \<noteq> [] \<and> prefix p s) ps of
       None \<Rightarrow> s
     | Some p \<Rightarrow> trimPrefixes ps (drop (length p) s))"
  by pat_completeness auto
termination
proof (relation "measure (\<lambda>(ps, s). length s)")
  show "wf (measure (\<lambda>(ps, s). length s))" by simp
next
  fix ps :: "string list" and s p :: string
  assume "find (\<lambda>p. p \<noteq> [] \<and> prefix p s) ps = Some p"
  then have "p \<noteq> []" and "prefix p s"
    by (auto simp: find_Some_iff)
  then have "s \<noteq> []" by auto
  with \<open>p \<noteq> []\<close> show "((ps, drop (length p) s), (ps, s)) \<in> measure (\<lambda>(ps, s). length s)"
    by simp
qed

declare trimPrefixes.simps [simp del]

definition TrimSpace :: "string \<Rightarrow> string" where
  "TrimSpace s = rev (trimPrefixes (map rev unicodeSpaces) (rev (trimPrefixes unicodeSpaces s)))"

text \<open>
  \<open>strconv.ParseInt(s, 10, 64)\<close> on a string of decimal digits, which is all that the
  second group of \<open>kvRe\<close> can be. A value above \<open>2^63 - 1\<close> makes \<open>ParseInt\<close> return
  \<open>2^63 - 1\<close> together with a range error; \<open>ParseSmaps\<close> discards the error
  (\<open>val, _ := ...\<close>) and keeps the value.
\<close>

definition digitVal :: "char \<Rightarrow> int" where
  "digitVal c = of_char c - 48"

definition decimal :: "string \<Rightarrow> int" where
  "decimal s = foldl (\<lambda>n c. 10 * n + digitVal c) 0 s"

definition maxInt64 :: int where
  "maxInt64 = 2 ^ 63 - 1"

definition ParseInt :: "string \<Rightarrow> int64" where
  "ParseInt s = word_of_int (min (decimal s) maxInt64)"

text \<open>
  \<open>bufio.Scanner\<close> with the default split function \<open>ScanLines\<close>: the input is cut at
  each newline, an unterminated non-empty rest is the last line, and one trailing
  carriage return is dropped from each line. The scanner's buffer grows to
  \<open>MaxScanTokenSize\<close> bytes and no further: a line that does not fit in it with its
  newline stops the scan with \<open>ErrTooLong\<close>.
\<close>

fun rawLines :: "string \<Rightarrow> string \<Rightarrow> string list" where
  "rawLines cur [] = (if cur = [] then [] else [cur])"
| "rawLines cur (c # cs) =
    (if c = CHR 0x0A then cur # rawLines [] cs else rawLines (cur @ [c]) cs)"

definition dropCR :: "string \<Rightarrow> string" where
  "dropCR l = (if l \<noteq> [] \<and> last l = CHR 0x0D then butlast l else l)"

definition MaxScanTokenSize :: int where
  "MaxScanTokenSize = 64 * 1024"

definition fitsBuffer :: "string \<Rightarrow> bool" where
  "fitsBuffer l = (int (length l) < MaxScanTokenSize)"

text \<open>
  The reader handed to \<open>ParseSmaps\<close>: the bytes it delivers, and whether it then ends
  with an error instead of end-of-file.
\<close>

record Reader =
  content :: string
  readFails :: bool

text \<open>The lines \<open>scanner.Scan()\<close> yields, as \<open>scanner.Text()\<close>, before it stops.\<close>

definition scanLines :: "Reader \<Rightarrow> string list" where
  "scanLines rd = map dropCR (takeWhile fitsBuffer (rawLines [] (content rd)))"

datatype scanError = ErrTooLong | ReadFailure

text \<open>\<open>scanner.Err()\<close> after the loop: \<open>None\<close> is \<open>nil\<close>.\<close>

definition scanErr :: "Reader \<Rightarrow> scanError option" where
  "scanErr rd =
    (if \<not> list_all fitsBuffer (rawLines [] (content rd)) then Some ErrTooLong
     else if readFails rd then Some ReadFailure
     else None)"

subsection \<open>ParseSmaps\<close>

text \<open>
  The state of the loop. \<open>aggregatedSmaps\<close> is a Go map from the path key to a pointer
  to a record; each record is allocated when its key is registered, stays registered,
  and has the key as its \<open>Path\<close>, so the key serves as the address of the record: the
  association list is the store of records, and the pointer \<open>mapping\<close> is \<open>None\<close> for
  \<open>nil\<close> or the key of the record it points to. Adding through \<open>mapping\<close> therefore
  changes the record every later lookup of the key finds. The list keeps the keys in
  the order of registration; Go leaves the iteration order of a map open, so no
  statement below depends on the order.
\<close>

record parseState =
  aggregatedSmaps :: "(string \<times> SmapsMapping) list"
  mapping :: "string option"

definition initState :: parseState where
  "initState = \<lparr>aggregatedSmaps = [], mapping = None\<rparr>"

text \<open>The record \<open>tmp\<close> built from the groups of a header line.\<close>

definition newMapping :: "string list \<Rightarrow> SmapsMapping" where
  "newMapping matches =
    (let perms = (if matches ! 2 \<noteq> [] then matches ! 2 else ''----'');
         path = (if matches ! 6 \<noteq> [] then matches ! 6 else ''[anon]'')
     in \<lparr>AddrRange = matches ! 1, Perms = perms, Offset = matches ! 3, Dev = matches ! 4,
         Inode = matches ! 5, Path = TrimSpace path,
         SizeBytes = 0, RssBytes = 0, PssBytes = 0, PssDirtyBytes = 0,
         SharedCleanBytes = 0, SharedDirtyBytes = 0, PrivateCleanBytes = 0,
         PrivateDirtyBytes = 0, ReferencedBytes = 0, AnonymousBytes = 0,
         LazyFreeBytes = 0, AnonHugePagesBytes = 0, ShmemPmdMappedBytes = 0,
         SharedHugetlbBytes = 0, PrivateHugetlbBytes = 0, SwapBytes = 0,
         SwapPssBytes = 0, KernelPageSizeBytes = 0, MMUPageSizeBytes = 0,
         LockedBytes = 0\<rparr>)"

text \<open>
  One pass of the loop body. The result \<open>None\<close> is the run-time panic of Go on
  \<open>mapping.X += valBytes\<close> with \<open>mapping == nil\<close>: the branches of the \<open>switch\<close>
  dereference the pointer and nothing checks it.
\<close>

definition processLine :: "parseState \<Rightarrow> string \<Rightarrow> parseState option" where
  "processLine s line =
    (if line = [] then Some s
     else case headerRe line of
       Some matches \<Rightarrow>
         (let tmp = newMapping matches; key = Path tmp
          in case map_of (aggregatedSmaps s) key of
               Some existing \<Rightarrow> Some (s\<lparr>mapping := Some key\<rparr>)
             | None \<Rightarrow> Some (s\<lparr>aggregatedSmaps := aggregatedSmaps s @ [(key, tmp)],
                               mapping := Some key\<rparr>))
     | None \<Rightarrow>
         (case kvRe line of
            Some kv \<Rightarrow>
              (let key = kv ! 1; val = ParseInt (kv ! 2); valBytes = val * 1024
               in case switchKey key of
                    None \<Rightarrow> Some s
                  | Some f \<Rightarrow>
                      (case mapping s of
                         None \<Rightarrow> None
                       | Some p \<Rightarrow>
                           Some (s\<lparr>aggregatedSmaps :=
                             AList.map_entry p (addField f valBytes) (aggregatedSmaps s)\<rparr>)))
          | None \<Rightarrow> Some s))"

fun scanLoop :: "parseState \<Rightarrow> string list \<Rightarrow> parseState option" where
  "scanLoop s [] = Some s"
| "scanLoop s (line # rest) =
    (case processLine s line of None \<Rightarrow> None | Some s' \<Rightarrow> scanLoop s' rest)"

text \<open>
  What a call of \<open>ParseSmaps\<close> ends with: the panic, the error
  \<open>scan error: ...\<close> wrapping the scanner's error, or the slice of records.
\<close>

datatype failure = NilPointerDereference | ScanError scanError

definition ParseSmaps :: "Reader \<Rightarrow> failure + SmapsMapping list" where
  "ParseSmaps rd =
    (case scanLoop initState (scanLines rd) of
       None \<Rightarrow> Inl NilPointerDereference
     | Some s \<Rightarrow>
         (case scanErr rd of
            Some err \<Rightarrow> Inl (ScanError err)
          | None \<Rightarrow> Inr (map snd (aggregatedSmaps s))))"

text \<open>A report given as its lines, each ended by a newline, read without error.\<close>

definition report :: "string list \<Rightarrow> Reader" where
  "report ls = \<lparr>content = concat (map (\<lambda>l. l @ [CHR 0x0A]) ls), readFails = False\<rparr>"

section \<open>Handing the records to the gauges (setMetrics, metrics.go)\<close>

text \<open>
  One call \<open>G.WithLabelValues(comm, m.Path).Set(float64(m.X))\<close> is one observation: the
  gauge \<open>G\<close>, named as \<open>metrics.go\<close> registers it with the labels \<open>comm\<close> and \<open>path\<close>,
  the two label values, and the integer whose conversion to \<open>float64\<close> is set. The
  conversion itself is left to the gauge.
\<close>

record observation =
  gauge :: string
  commLabel :: string
  pathLabel :: string
  gaugeValue :: int64

definition observe :: "string \<Rightarrow> string \<Rightarrow> string \<Rightarrow> int64 \<Rightarrow> observation" where
  "observe g c p v = \<lparr>gauge = g, commLabel = c, pathLabel = p, gaugeValue = v\<rparr>"

text \<open>\<open>setMetrics\<close>: the calls in the order of the source.\<close>

definition setMetrics :: "string \<Rightarrow> SmapsMapping \<Rightarrow> observation list" where
  "setMetrics comm m =
    [observe ''process_smaps_size_bytes'' comm (Path m) (SizeBytes m),
     observe ''process_smaps_rss_bytes'' comm (Path m) (RssBytes m),
     observe ''process_smaps_pss_bytes'' comm (Path m) (PssBytes m),
     observe ''process_smaps_pss_dirty_bytes'' comm (Path m) (PssDirtyBytes m),
     observe ''process_smaps_shared_clean_bytes'' comm (Path m) (SharedCleanBytes m),
     observe ''process_smaps_shared_dirty_bytes'' comm (Path m) (SharedDirtyBytes m),
     observe ''process_smaps_private_clean_bytes'' comm (Path m) (PrivateCleanBytes m),
     observe ''process_smaps_private_dirty_bytes'' comm (Path m) (PrivateDirtyBytes m),
     observe ''process_smaps_referenced_bytes'' comm (Path m) (ReferencedBytes m),
     observe ''process_smaps_anonymous_bytes'' comm (Path m) (AnonymousBytes m),
     observe ''process_smaps_lazyfree_bytes'' comm (Path m) (LazyFreeBytes m),
     observe ''process_smaps_anon_hugepages_bytes'' comm (Path m) (AnonHugePagesBytes m),
     observe ''process_smaps_shmem_pmdmapped_bytes'' comm (Path m) (ShmemPmdMappedBytes m),
     observe ''process_smaps_shared_hugetlb_bytes'' comm (Path m) (SharedHugetlbBytes m),
     observe ''process_smaps_private_hugetlb_bytes'' comm (Path m) (PrivateHugetlbBytes m),
     observe ''process_smaps_swap_bytes'' comm (Path m) (SwapBytes m),
     observe ''process_smaps_swap_pss_bytes'' comm (Path m) (SwapPssBytes m),
     observe ''process_smaps_kernel_page_size_bytes'' comm (Path m) (KernelPageSizeBytes m),
     observe ''process_smaps_mmu_page_size_bytes'' comm (Path m) (MMUPageSizeBytes m),
     observe ''process_smaps_locked_bytes'' comm (Path m) (LockedBytes m)]"

text \<open>The key-value fields in the order in which \<open>setMetrics\<close> reads them.\<close>

definition setMetricsFields :: "field list" where
  "setMetricsFields =
    [FSize, FRss, FPss, FPssDirty, FSharedClean, FSharedDirty, FPrivateClean,
     FPrivateDirty, FReferenced, FAnonymous, FLazyFree, FAnonHugePages, FShmemPmdMapped,
     FSharedHugetlb, FPrivateHugetlb, FSwap, FSwapPss, FKernelPageSize, FMMUPageSize,
     FLocked]"

section \<open>The process selector (kubernetes.go)\<close>

subsection \<open>The world outside\<close>

text \<open>
  \<open>GetHostPIDs\<close> only reads: the CRI runtime service, containerd's tasks and the proc
  file system. One resolution sees one state of them, which is a value of \<open>World\<close>.
\<close>

datatype ContainerState =
  CONTAINER_CREATED | CONTAINER_RUNNING | CONTAINER_EXITED | CONTAINER_UNKNOWN

text \<open>Labels are a Go \<open>map[string]string\<close>; reading a key that is absent gives \<open>""\<close>.\<close>

type_synonym labels = "(string \<times> string) list"

definition labelOf :: "labels \<Rightarrow> string \<Rightarrow> string" where
  "labelOf ls k = (case map_of ls k of None \<Rightarrow> [] | Some v \<Rightarrow> v)"

record PodSandbox =
  sandboxLabels :: labels

record Container =
  containerId :: string
  containerState :: ContainerState
  containerLabels :: labels

text \<open>
  \<^item> \<open>podSandboxes\<close>: the answer of \<open>ListPodSandbox\<close> to the unfiltered request, or its
    error;
  \<^item> \<open>containers\<close>: the containers the runtime holds, and \<open>listContainersFails\<close>: the
    pod identifiers for which the call \<open>ListContainers\<close> fails;
  \<^item> \<open>taskPid\<close>: for a container identifier the process identifier (a \<open>uint32\<close>) of its
    containerd task; \<open>None\<close> when \<open>LoadContainer\<close> or \<open>Task\<close> fails;
  \<^item> \<open>procDir\<close>: the entries \<open>os.ReadDir(procPath)\<close> lists, each a name and whether it
    is a directory; \<open>None\<close> when reading the directory fails;
  \<^item> \<open>nsPidLink\<close>, \<open>commFile\<close>: for an entry name \<open>n\<close> the target of the link
    \<open>procPath/n/ns/pid\<close> and the contents of \<open>procPath/n/comm\<close>; \<open>None\<close> when the read
    fails.
\<close>

record World =
  podSandboxes :: "string + PodSandbox list"
  containers :: "Container list"
  listContainersFails :: "string \<Rightarrow> bool"
  taskPid :: "string \<Rightarrow> 32 word option"
  procDir :: "(string \<times> bool) list option"
  nsPidLink :: "string \<Rightarrow> string option"
  commFile :: "string \<Rightarrow> string option"

text \<open>
  The CRI call \<open>ListContainers\<close> with a label selector: the runtime answers with the
  containers that carry every label of the selector with the given value.
\<close>

definition labelsMatch :: "labels \<Rightarrow> labels \<Rightarrow> bool" where
  "labelsMatch selector ls = list_all (\<lambda>kv. map_of ls (fst kv) = Some (snd kv)) selector"

definition ListContainers :: "World \<Rightarrow> labels \<Rightarrow> string + Container list" where
  "ListContainers w selector =
    (if listContainersFails w (labelOf selector ''io.kubernetes.pod.uid'')
     then Inl ''ListContainers failed''
     else Inr (filter (\<lambda>c. labelsMatch selector (containerLabels c)) (containers w)))"

subsection \<open>Library functions used by the selector\<close>

text \<open>\<open>fmt.Sprintf("%d", n)\<close>: the decimal digits of \<open>n\<close>, after a minus sign if negative.\<close>

definition digitChar :: "int \<Rightarrow> char" where
  "digitChar d = char_of (48 + d)"

function decimalDigits :: "int \<Rightarrow> string" where
  "decimalDigits n =
    (if n < 10 then [digitChar n] else decimalDigits (n div 10) @ [digitChar (n mod 10)])"
  by pat_completeness auto
termination
  by (relation "measure nat") auto

declare decimalDigits.simps [simp del]

definition Sprintf_d :: "int \<Rightarrow> string" where
  "Sprintf_d n = (if n < 0 then CHR ''-'' # decimalDigits (- n) else decimalDigits n)"

text \<open>
  \<open>strconv.Atoi\<close>: an optional sign, then decimal digits and nothing else, and a value
  that fits Go's 64-bit \<open>int\<close>; otherwise an error, here \<open>None\<close>.
\<close>

definition signedDecimal :: "string \<Rightarrow> int option" where
  "signedDecimal s =
    (let neg = (s \<noteq> [] \<and> hd s = CHR ''-'');
         ds = (if s \<noteq> [] \<and> hd s \<in> set ''+-'' then tl s else s)
     in if ds = [] \<or> \<not> list_all isDigit ds then None
        else (let v = (if neg then - decimal ds else decimal ds)
              in if v < - (2 ^ 63) \<or> maxInt64 < v then None else Some v))"

definition Atoi :: "string \<Rightarrow> int option" where
  "Atoi s = signedDecimal s"

text \<open>
  \<open>fmt.Sscanf(link, "pid:[%d]", &n)\<close> succeeding with one item scanned: the literal
  \<open>pid:[\<close>; for \<open>%d\<close> the scanner skips white space (a newline there is an error), takes
  an optional sign and the run of digits and underscores, and hands them to
  \<open>strconv.ParseInt\<close> in base 10, which rejects underscores and values outside 64 bits;
  then the literal \<open>]\<close>. What follows in the input is not read.
\<close>

definition skipSpace :: "string \<Rightarrow> string option" where
  "skipSpace s =
    (let r = trimPrefixes (remove1 [CHR 0x0A] unicodeSpaces) s
     in if r \<noteq> [] \<and> hd r = CHR 0x0A then None else Some r)"

definition isNumberChar :: "char \<Rightarrow> bool" where
  "isNumberChar c = (isDigit c \<or> c = CHR ''_'')"

definition scanPidLink :: "string \<Rightarrow> int option" where
  "scanPidLink link = do {
     r \<leftarrow> reLit ''pid:['' link;
     r \<leftarrow> skipSpace r;
     let sign = (if r \<noteq> [] \<and> hd r \<in> set ''+-'' then [hd r] else []);
     (tok, r) \<leftarrow> rePlus isNumberChar (drop (length sign) r);
     n \<leftarrow> signedDecimal (sign @ tok);
     _ \<leftarrow> reLit '']'' r;
     Some n
   }"

subsection \<open>The helper methods\<close>

text \<open>
  \<open>getContainersForPod\<close>: the selector always names the pod, and the container too
  unless the container field is the wildcard.
\<close>

definition getContainersForPod :: "World \<Rightarrow> string \<Rightarrow> string \<Rightarrow> string + Container list" where
  "getContainersForPod w podUID container =
    (let selector = [(''io.kubernetes.pod.uid'', podUID)] @
           (if container \<noteq> ''*'' then [(''io.kubernetes.container.name'', container)] else [])
     in ListContainers w selector)"

definition getInitPIDFromContainerd :: "World \<Rightarrow> string \<Rightarrow> string + string" where
  "getInitPIDFromContainerd w containerID =
    (case taskPid w containerID of
       None \<Rightarrow> Inl ''no task''
     | Some pid \<Rightarrow> Inr (Sprintf_d (uint pid)))"

definition getPIDNamespace :: "World \<Rightarrow> string \<Rightarrow> string + string" where
  "getPIDNamespace w pid =
    (case nsPidLink w pid of
       None \<Rightarrow> Inl ''readlink failed''
     | Some link \<Rightarrow>
         (case scanPidLink link of
            Some nsid \<Rightarrow> Inr (Sprintf_d nsid)
          | None \<Rightarrow> Inl (''unexpected ns link format: '' @ link)))"

definition pidNamespaceMatches :: "World \<Rightarrow> string \<Rightarrow> string \<Rightarrow> bool" where
  "pidNamespaceMatches w pid ns =
    (case nsPidLink w pid of
       None \<Rightarrow> False
     | Some link \<Rightarrow>
         (case scanPidLink link of
            Some pidnsInt \<Rightarrow> Sprintf_d pidnsInt = ns
          | None \<Rightarrow> False))"

definition commMatches :: "World \<Rightarrow> string \<Rightarrow> string \<Rightarrow> bool" where
  "commMatches w pid comm =
    (case commFile w pid of
       None \<Rightarrow> False
     | Some data \<Rightarrow> TrimSpace data = comm)"

text \<open>The loop of \<open>findPIDsInPIDNamespace\<close> over the directory entries.\<close>

fun procLoop :: "World \<Rightarrow> string \<Rightarrow> string \<Rightarrow> (string \<times> bool) list \<Rightarrow> int list" where
  "procLoop w ns comm [] = []"
| "procLoop w ns comm (entry # rest) =
    (case Atoi (fst entry) of
       None \<Rightarrow> procLoop w ns comm rest
     | Some pidInt \<Rightarrow>
         if \<not> snd entry then procLoop w ns comm rest
         else if \<not> pidNamespaceMatches w (fst entry) ns then procLoop w ns comm rest
         else if comm \<noteq> ''*'' \<and> \<not> commMatches w (fst entry) comm then procLoop w ns comm rest
         else pidInt # procLoop w ns comm rest)"

definition findPIDsInPIDNamespace :: "World \<Rightarrow> string \<Rightarrow> string \<Rightarrow> int list" where
  "findPIDsInPIDNamespace w ns comm =
    (case procDir w of None \<Rightarrow> [] | Some entries \<Rightarrow> procLoop w ns comm entries)"

subsection \<open>GetHostPIDs\<close>

text \<open>The first loop: the pod identifiers of the sandboxes that pass both filters.\<close>

fun sandboxLoop :: "string \<Rightarrow> string \<Rightarrow> PodSandbox list \<Rightarrow> string list" where
  "sandboxLoop namespace pod [] = []"
| "sandboxLoop namespace pod (sb # rest) =
    (if (namespace = ''*'' \<or> labelOf (sandboxLabels sb) ''io.kubernetes.pod.namespace'' = namespace)
        \<and> (pod = ''*'' \<or> labelOf (sandboxLabels sb) ''io.kubernetes.pod.name'' = pod)
     then labelOf (sandboxLabels sb) ''io.kubernetes.pod.uid'' # sandboxLoop namespace pod rest
     else sandboxLoop namespace pod rest)"

text \<open>
  The second loop: the running containers of each pod; a pod whose listing fails is
  passed over.
\<close>

fun runningLoop :: "Container list \<Rightarrow> string list" where
  "runningLoop [] = []"
| "runningLoop (c # rest) =
    (if containerState c \<noteq> CONTAINER_RUNNING then runningLoop rest
     else containerId c # runningLoop rest)"

fun containerLoop :: "World \<Rightarrow> string \<Rightarrow> string list \<Rightarrow> string list" where
  "containerLoop w container [] = []"
| "containerLoop w container (podUID # rest) =
    (case getContainersForPod w podUID container of
       Inl err \<Rightarrow> containerLoop w container rest
     | Inr cs \<Rightarrow> runningLoop cs @ containerLoop w container rest)"

text \<open>
  The third loop: what one container adds to \<open>allPIDs\<close> (nothing when its init process
  or its namespace cannot be resolved), and the loop over the containers.
\<close>

definition containerPIDs :: "World \<Rightarrow> string \<Rightarrow> string \<Rightarrow> int list" where
  "containerPIDs w comm containerUID =
    (case getInitPIDFromContainerd w containerUID of
       Inl err \<Rightarrow> []
     | Inr initPID \<Rightarrow>
         (case getPIDNamespace w initPID of
            Inl err \<Rightarrow> []
          | Inr pidNS \<Rightarrow> findPIDsInPIDNamespace w pidNS comm))"

fun pidLoop :: "World \<Rightarrow> string \<Rightarrow> string list \<Rightarrow> int list" where
  "pidLoop w comm [] = []"
| "pidLoop w comm (containerUID # rest) = containerPIDs w comm containerUID @ pidLoop w comm rest"

text \<open>
  The errors \<open>GetHostPIDs\<close> returns: the error of \<open>ListPodSandbox\<close> as it is, and the
  three messages \<open>pod not found in sandboxes\<close>, \<open>no running containers found in the
  specified pod(s)\<close> and \<open>no PIDs found in the specified container(s)\<close>.
\<close>

datatype resolveError =
  ListPodSandboxFailed string | PodNotFound | NoRunningContainers | NoMatchingProcesses

definition GetHostPIDs ::
  "World \<Rightarrow> string \<Rightarrow> string \<Rightarrow> string \<Rightarrow> string \<Rightarrow> resolveError + int list" where
  "GetHostPIDs w namespace pod container comm =
    (case podSandboxes w of
       Inl err \<Rightarrow> Inl (ListPodSandboxFailed err)
     | Inr items \<Rightarrow>
         (let podUIDs = sandboxLoop namespace pod items
          in if length podUIDs = 0 then Inl PodNotFound
             else (let containerUIDs = containerLoop w container podUIDs
                   in if length containerUIDs = 0 then Inl NoRunningContainers
                      else (let allPIDs = pidLoop w comm containerUIDs
                            in if length allPIDs = 0 then Inl NoMatchingProcesses
                               else Inr allPIDs))))"

section \<open>Notions the statements are written in\<close>

subsection \<open>Reports\<close>

text \<open>
  A line is a header line when \<open>headerRe\<close> matches it; its path is the aggregation key,
  the path after the anonymous marker has been put in and white space trimmed.
\<close>

definition headerKey :: "string \<Rightarrow> string option" where
  "headerKey line = map_option (\<lambda>matches. Path (newMapping matches)) (headerRe line)"

text \<open>
  A recognized key-value line: not a header line, matched by \<open>kvRe\<close>, with a key the
  \<open>switch\<close> has a label for. It gives the field and the decimal value of its digits.
\<close>

definition kvEntry :: "string \<Rightarrow> (field \<times> int) option" where
  "kvEntry line =
    (case headerRe line of
       Some matches \<Rightarrow> None
     | None \<Rightarrow>
         (case kvRe line of
            None \<Rightarrow> None
          | Some kv \<Rightarrow> map_option (\<lambda>f. (f, decimal (kv ! 2))) (switchKey (kv ! 1))))"

text \<open>
  The key-value lines of a report, each attributed to the header line it follows:
  path of that header, field, decimal value. \<open>cur\<close> is the path of the last header line
  seen, if any.
\<close>

fun attributed :: "string option \<Rightarrow> string list \<Rightarrow> (string \<times> field \<times> int) list" where
  "attributed cur [] = []"
| "attributed cur (line # rest) =
    (case headerKey line of
       Some p \<Rightarrow> attributed (Some p) rest
     | None \<Rightarrow>
         (case kvEntry line of
            None \<Rightarrow> attributed cur rest
          | Some fv \<Rightarrow>
              (case cur of
                 None \<Rightarrow> attributed cur rest
               | Some p \<Rightarrow> (p, fst fv, snd fv) # attributed cur rest)))"

text \<open>
  The sum, over the attributed lines of path \<open>p\<close> and field \<open>f\<close>, of 1024 times the
  value: an integer, as large as the values make it.
\<close>

definition fieldSum :: "(string \<times> field \<times> int) list \<Rightarrow> string \<Rightarrow> field \<Rightarrow> int" where
  "fieldSum es p f =
    sum_list (map (\<lambda>e. if fst e = p \<and> fst (snd e) = f then 1024 * snd (snd e) else 0) es)"

text \<open>The same lines with each value cut down to \<open>2^63 - 1\<close>, as \<open>ParseInt\<close> does.\<close>

definition saturated :: "(string \<times> field \<times> int) list \<Rightarrow> (string \<times> field \<times> int) list" where
  "saturated es = map (\<lambda>e. (fst e, fst (snd e), min (snd (snd e)) maxInt64)) es"


text \<open>
  What a header line holds after its inode: the rest of the whole match behind the
  five groups and the four blanks between them.
\<close>

definition afterInode :: "string list \<Rightarrow> string" where
  "afterInode matches =
    drop (length (matches ! 1) + length (matches ! 2) + length (matches ! 3)
          + length (matches ! 4) + length (matches ! 5) + 4) (matches ! 0)"

text \<open>
  What holds of the state between two passes of the loop: the pointer \<open>mapping\<close> is
  \<open>nil\<close> or points to a registered record, every record is registered under its path,
  and no key is registered twice.
\<close>

definition wellFormed :: "parseState \<Rightarrow> bool" where
  "wellFormed s =
    ((case mapping s of None \<Rightarrow> True | Some k \<Rightarrow> map_of (aggregatedSmaps s) k \<noteq> None)
     \<and> list_all (\<lambda>km. Path (snd km) = fst km) (aggregatedSmaps s)
     \<and> distinct (map fst (aggregatedSmaps s)))"

definition lookupField :: "(string \<times> SmapsMapping) list \<Rightarrow> string \<Rightarrow> field \<Rightarrow> int64" where
  "lookupField al p f = (case map_of al p of None \<Rightarrow> 0 | Some m \<Rightarrow> getField f m)"

subsection \<open>Resolutions\<close>

text \<open>The results of the three stages of \<open>GetHostPIDs\<close>, each from the one before.\<close>

definition stagePods :: "World \<Rightarrow> string \<Rightarrow> string \<Rightarrow> string list" where
  "stagePods w namespace pod =
    (case podSandboxes w of Inl err \<Rightarrow> [] | Inr items \<Rightarrow> sandboxLoop namespace pod items)"

definition stageContainers :: "World \<Rightarrow> string \<Rightarrow> string \<Rightarrow> string \<Rightarrow> string list" where
  "stageContainers w namespace pod container =
    containerLoop w container (stagePods w namespace pod)"

definition stagePIDs :: "World \<Rightarrow> string \<Rightarrow> string \<Rightarrow> string \<Rightarrow> string \<Rightarrow> int list" where
  "stagePIDs w namespace pod container comm =
    pidLoop w comm (stageContainers w namespace pod container)"




subsection \<open>Header fields and reports used as examples\<close>


text \<open>
  Two mappings of one file, with different permissions, each with 100 kB resident.
\<close>

definition libcReport :: Reader where
  "libcReport = report
    [''7f0000-7f1000 r-xp 00000000 08:01 12 /lib/libc.so'', ''Rss: 100 kB'',
     ''7f1000-7f2000 rw-p 00001000 08:01 12 /lib/libc.so'', ''Rss: 100 kB'']"

definition libcRecord :: SmapsMapping where
  "libcRecord = addField FRss 204800 (newMapping
    [''7f0000-7f1000 r-xp 00000000 08:01 12 /lib/libc.so'', ''7f0000-7f1000'', ''r-xp'',
     ''00000000'', ''08:01'', ''12'', ''/lib/libc.so''])"

text \<open>An anonymous mapping: the header line has no path.\<close>

definition anonHeader :: string where
  "anonHeader = ''7f0000-7f1000 rw-p 00000000 00:00 0''"

definition anonMatches :: "string list" where
  "anonMatches = [anonHeader, ''7f0000-7f1000'', ''rw-p'', ''00000000'', ''00:00'', ''0'', []]"

definition anonReport :: Reader where
  "anonReport = report [anonHeader, ''Rss: 4 kB'']"

definition anonRecord :: SmapsMapping where
  "anonRecord = addField FRss 4096 (newMapping anonMatches)"

text \<open>
  A header line whose trailing path is a single vertical tab, and what \<open>headerRe\<close>
  finds in it.
\<close>

definition vtHeader :: string where
  "vtHeader = anonHeader @ [CHR 0x20, CHR 0x0B]"

definition vtMatches :: "string list" where
  "vtMatches = [vtHeader, ''7f0000-7f1000'', ''rw-p'', ''00000000'', ''00:00'', ''0'', [CHR 0x0B]]"

text \<open>Reports with a value of \<open>2^63\<close> kB and of \<open>2^53\<close> kB.\<close>

definition saturatedReport :: Reader where
  "saturatedReport = report [anonHeader, ''Rss: 9223372036854775808 kB'']"

definition wrappedReport :: Reader where
  "wrappedReport = report [anonHeader, ''Rss: 9007199254740992 kB'']"





subsection \<open>Worlds used as examples\<close>

text \<open>
  Two pods in the namespace \<open>default\<close>. The pod \<open>web-1\<close> has the running containers
  \<open>web\<close> (init process 100) and \<open>sidecar\<close> (init process 200) and a running container
  \<open>broken\<close> that containerd has no task for; the pod \<open>db-1\<close> has a running container
  \<open>web\<close> (init process 300) and an exited one. Each init process has a PID namespace of
  its own.
\<close>

definition exampleSandboxes :: "PodSandbox list" where
  "exampleSandboxes =
    [\<lparr>sandboxLabels = [(''io.kubernetes.pod.namespace'', ''default''),
        (''io.kubernetes.pod.name'', ''web-1''), (''io.kubernetes.pod.uid'', ''u1'')]\<rparr>,
     \<lparr>sandboxLabels = [(''io.kubernetes.pod.namespace'', ''default''),
        (''io.kubernetes.pod.name'', ''db-1''), (''io.kubernetes.pod.uid'', ''u2'')]\<rparr>]"

definition exampleContainers :: "Container list" where
  "exampleContainers =
    [\<lparr>containerId = ''c1'', containerState = CONTAINER_RUNNING,
       containerLabels = [(''io.kubernetes.pod.uid'', ''u1''),
         (''io.kubernetes.container.name'', ''web'')]\<rparr>,
     \<lparr>containerId = ''c2'', containerState = CONTAINER_RUNNING,
       containerLabels = [(''io.kubernetes.pod.uid'', ''u1''),
         (''io.kubernetes.container.name'', ''sidecar'')]\<rparr>,
     \<lparr>containerId = ''c3'', containerState = CONTAINER_RUNNING,
       containerLabels = [(''io.kubernetes.pod.uid'', ''u1''),
         (''io.kubernetes.container.name'', ''broken'')]\<rparr>,
     \<lparr>containerId = ''c4'', containerState = CONTAINER_RUNNING,
       containerLabels = [(''io.kubernetes.pod.uid'', ''u2''),
         (''io.kubernetes.container.name'', ''web'')]\<rparr>,
     \<lparr>containerId = ''c5'', containerState = CONTAINER_EXITED,
       containerLabels = [(''io.kubernetes.pod.uid'', ''u2''),
         (''io.kubernetes.container.name'', ''init'')]\<rparr>]"

definition separateWorld :: World where
  "separateWorld =
    \<lparr>podSandboxes = Inr exampleSandboxes,
     containers = exampleContainers,
     listContainersFails = (\<lambda>uid. False),
     taskPid = map_of [(''c1'', 100), (''c2'', 200), (''c4'', 300)],
     procDir = Some [(''100'', True), (''101'', True), (''200'', True), (''300'', True),
       (''self'', True), (''uptime'', False)],
     nsPidLink = map_of [(''100'', ''pid:[4026532001]''), (''101'', ''pid:[4026532001]''),
       (''200'', ''pid:[4026532002]''), (''300'', ''pid:[4026532003]'')],
     commFile = map_of [(''100'', ''nginx'' @ [CHR 0x0A]), (''101'', ''nginx'' @ [CHR 0x0A]),
       (''200'', ''envoy'' @ [CHR 0x0A]), (''300'', ''postgres'' @ [CHR 0x0A])]\<rparr>"


text \<open>The same, but the runtime does not answer \<open>ListPodSandbox\<close>.\<close>

definition downWorld :: World where
  "downWorld = separateWorld\<lparr>podSandboxes := Inl ''rpc error: connection refused''\<rparr>"

text \<open>
  A report begins well when, reading from its start, a header line comes before the
  first recognized key-value line (or there is no such key-value line at all).
\<close>

fun beginsWell :: "string list \<Rightarrow> bool" where
  "beginsWell [] = True"
| "beginsWell (line # rest) =
    (if headerKey line \<noteq> None then True
     else if kvEntry line \<noteq> None then False
     else beginsWell rest)"

subsection \<open>Key-value lines as the specification writes them\<close>

text \<open>
  The specification's key-value line is \<open><FieldName>: <decimal> kB\<close> with exactly this
  unit: the line ends where the unit ends. \<open>kvExact\<close> holds of a line that the pattern
  matches as a whole; \<open>keyValueLine\<close> gives field and value of such a line, and
  \<open>attributedExact\<close> attributes these lines to the header line they follow.
\<close>

definition kvExact :: "string \<Rightarrow> bool" where
  "kvExact line = (case kvRe line of None \<Rightarrow> False | Some kv \<Rightarrow> kv ! 0 = line)"

definition keyValueLine :: "string \<Rightarrow> (field \<times> int) option" where
  "keyValueLine line = (if kvExact line then kvEntry line else None)"

fun attributedExact :: "string option \<Rightarrow> string list \<Rightarrow> (string \<times> field \<times> int) list" where
  "attributedExact cur [] = []"
| "attributedExact cur (line # rest) =
    (case headerKey line of
       Some p \<Rightarrow> attributedExact (Some p) rest
     | None \<Rightarrow>
         (case keyValueLine line of
            None \<Rightarrow> attributedExact cur rest
          | Some fv \<Rightarrow>
              (case cur of
                 None \<Rightarrow> attributedExact cur rest
               | Some p \<Rightarrow> (p, fst fv, snd fv) # attributedExact cur rest)))"

text \<open>
  A report has its units exact when no line continues behind the unit of a key-value
  line with a known field name.
\<close>

definition unitsExact :: "string list \<Rightarrow> bool" where
  "unitsExact ls = list_all (\<lambda>l. kvEntry l = None \<or> kvExact l) ls"

text \<open>
  \<open>separateWorld\<close> with the sandbox of the pod \<open>web-1\<close> listed twice, as the runtime lists
  a pod whose sandbox was created anew beside the old one.
\<close>

definition twiceListedWorld :: World where
  "twiceListedWorld = separateWorld\<lparr>podSandboxes := Inr (hd exampleSandboxes # exampleSandboxes)\<rparr>"

section \<open>Properties of the report parser\<close>

subsection \<open>The loop body, case by case\<close>

lemma getField_addField:
  "getField f (addField g v m) = (if f = g then getField f m + v else getField f m)"
  by (cases g; cases f; simp)

lemma getField_newMapping: "getField f (newMapping ms) = 0"
  by (cases f; simp add: newMapping_def Let_def)

lemma Path_addField: "Path (addField g v m) = Path m"
  by (cases g; simp)


lemma rePlus_Nil: "rePlus P [] = None"
  by (simp add: rePlus_def)

lemma headerRe_Nil: "headerRe [] = None"
  by (simp add: headerRe_def rePlus_Nil)

lemma kvRe_Nil: "kvRe [] = None"
  by (simp add: kvRe_def rePlus_Nil)

lemma processLine_header:
  assumes "headerKey line = Some p"
  shows "\<exists>tmp. Path tmp = p \<and> (\<forall>f. getField f tmp = 0)
      \<and> (\<exists>ms. headerRe line = Some ms \<and> tmp = newMapping ms)
      \<and> processLine s line =
          Some (if map_of (aggregatedSmaps s) p = None
                then s\<lparr>aggregatedSmaps := aggregatedSmaps s @ [(p, tmp)], mapping := Some p\<rparr>
                else s\<lparr>mapping := Some p\<rparr>)"
proof -
  from assms obtain ms where ms: "headerRe line = Some ms" and p: "p = Path (newMapping ms)"
    by (auto simp: headerKey_def)
  from ms have "line \<noteq> []" using headerRe_Nil by auto
  then have "processLine s line =
          Some (if map_of (aggregatedSmaps s) p = None
                then s\<lparr>aggregatedSmaps := aggregatedSmaps s @ [(p, newMapping ms)], mapping := Some p\<rparr>
                else s\<lparr>mapping := Some p\<rparr>)"
    using ms p by (auto simp: processLine_def Let_def split: option.splits)
  then show ?thesis using ms p getField_newMapping by blast
qed

lemma processLine_kv:
  assumes "headerKey line = None" and "kvEntry line = Some (f, v)"
  shows "processLine s line =
    (case mapping s of
       None \<Rightarrow> None
     | Some p \<Rightarrow> Some (s\<lparr>aggregatedSmaps :=
         AList.map_entry p (addField f (word_of_int (min v maxInt64) * 1024)) (aggregatedSmaps s)\<rparr>))"
proof -
  from assms(1) have h: "headerRe line = None" by (simp add: headerKey_def)
  with assms(2) obtain kv where kv: "kvRe line = Some kv" "switchKey (kv ! 1) = Some f"
     "v = decimal (kv ! 2)"
    by (auto simp: kvEntry_def split: option.splits)
  from kv have "line \<noteq> []" using kvRe_Nil by auto
  then show ?thesis using h kv
    by (simp add: processLine_def Let_def ParseInt_def split: option.splits)
qed

lemma processLine_other:
  assumes "headerKey line = None" and "kvEntry line = None"
  shows "processLine s line = Some s"
proof -
  from assms(1) have h: "headerRe line = None" by (simp add: headerKey_def)
  with assms(2) show ?thesis
    by (auto simp: processLine_def kvEntry_def Let_def split: option.splits)
qed

subsection \<open>The loop keeps the state well formed\<close>

lemma map_of_snoc:
  "map_of (al @ [(k, v)]) p = (if map_of al p = None \<and> p = k then Some v else map_of al p)"
  by (cases "map_of al p") (auto simp: map_add_def)

lemma map_of_None_notin: "map_of al k = None \<Longrightarrow> k \<notin> fst ` set al"
  by (simp add: map_of_eq_None_iff)

lemma wellFormed_init: "wellFormed initState"
  by (simp add: wellFormed_def initState_def)

lemma list_all_map_entry:
  "list_all (\<lambda>km. Path (snd km) = fst km) al \<Longrightarrow>
   list_all (\<lambda>km. Path (snd km) = fst km) (AList.map_entry p (addField f v) al)"
  by (induction al) (auto simp: Path_addField)

lemma map_fst_map_entry: "map fst (AList.map_entry p g al) = map fst al"
  by (induction al) auto

lemma processLine_wellFormed:
  assumes "wellFormed s" and "processLine s line = Some s'"
  shows "wellFormed s'"
proof (cases "headerKey line")
  case (Some p)
  from processLine_header [OF Some, of s] assms(2) obtain tmp where
    tmp: "Path tmp = p" and
    s': "s' = (if map_of (aggregatedSmaps s) p = None
                then s\<lparr>aggregatedSmaps := aggregatedSmaps s @ [(p, tmp)], mapping := Some p\<rparr>
                else s\<lparr>mapping := Some p\<rparr>)"
    by auto
  show ?thesis
  proof (cases "map_of (aggregatedSmaps s) p")
    case None
    then have "p \<notin> fst ` set (aggregatedSmaps s)" by (rule map_of_None_notin)
    with assms(1) None tmp s' show ?thesis
      by (auto simp: wellFormed_def map_of_snoc split: option.splits)
  next
    case (Some m)
    with assms(1) s' show ?thesis by (auto simp: wellFormed_def)
  qed
next
  case None
  show ?thesis
  proof (cases "kvEntry line")
    case None
    with \<open>headerKey line = None\<close> assms show ?thesis by (simp add: processLine_other)
  next
    case (Some fv)
    obtain f v where fv: "fv = (f, v)" by (cases fv)
    with Some \<open>headerKey line = None\<close> assms(2) obtain p where
      p: "mapping s = Some p" and
      s': "s' = s\<lparr>aggregatedSmaps :=
         AList.map_entry p (addField f (word_of_int (min v maxInt64) * 1024)) (aggregatedSmaps s)\<rparr>"
      by (auto simp: processLine_kv split: option.splits)
    with assms(1) show ?thesis
      by (auto simp: wellFormed_def AList.map_of_map_entry map_fst_map_entry
          intro: list_all_map_entry split: option.splits)
  qed
qed

lemma scanLoop_wellFormed:
  "wellFormed s \<Longrightarrow> scanLoop s ls = Some s' \<Longrightarrow> wellFormed s'"
proof (induction ls arbitrary: s)
  case Nil
  then show ?case by simp
next
  case (Cons l ls)
  from Cons.prems(2) obtain s1 where s1: "processLine s l = Some s1" "scanLoop s1 ls = Some s'"
    by (auto split: option.splits)
  from Cons.prems(1) s1(1) have "wellFormed s1" by (rule processLine_wellFormed)
  then show ?case using s1(2) by (rule Cons.IH)
qed

subsection \<open>The keys are the paths of the header lines\<close>

lemma processLine_keys:
  assumes "processLine s line = Some s'"
  shows "fst ` set (aggregatedSmaps s') =
     fst ` set (aggregatedSmaps s) \<union> (case headerKey line of None \<Rightarrow> {} | Some p \<Rightarrow> {p})"
proof (cases "headerKey line")
  case (Some p)
  from processLine_header [OF Some, of s] assms obtain tmp where
    s': "s' = (if map_of (aggregatedSmaps s) p = None
                then s\<lparr>aggregatedSmaps := aggregatedSmaps s @ [(p, tmp)], mapping := Some p\<rparr>
                else s\<lparr>mapping := Some p\<rparr>)"
    by auto
  show ?thesis
  proof (cases "map_of (aggregatedSmaps s) p")
    case None
    with s' Some show ?thesis by auto
  next
    case (Some m)
    then have "p \<in> fst ` set (aggregatedSmaps s)"
      by (metis map_of_eq_None_iff option.distinct(1))
    with s' Some \<open>headerKey line = Some p\<close> show ?thesis by auto
  qed
next
  case None
  show ?thesis
  proof (cases "kvEntry line")
    case None
    with \<open>headerKey line = None\<close> assms show ?thesis by (simp add: processLine_other)
  next
    case (Some fv)
    obtain f v where fv: "fv = (f, v)" by (cases fv)
    with Some \<open>headerKey line = None\<close> assms obtain p where
      s': "s' = s\<lparr>aggregatedSmaps :=
         AList.map_entry p (addField f (word_of_int (min v maxInt64) * 1024)) (aggregatedSmaps s)\<rparr>"
      by (auto simp: processLine_kv split: option.splits)
    with \<open>headerKey line = None\<close> show ?thesis
      by (simp add: AList.dom_map_entry)
  qed
qed

lemma scanLoop_keys:
  "scanLoop s ls = Some s' \<Longrightarrow>
   fst ` set (aggregatedSmaps s') =
     fst ` set (aggregatedSmaps s) \<union> {p. \<exists>l\<in>set ls. headerKey l = Some p}"
proof (induction ls arbitrary: s)
  case Nil
  then show ?case by simp
next
  case (Cons l ls)
  from Cons.prems obtain s1 where s1: "processLine s l = Some s1" "scanLoop s1 ls = Some s'"
    by (auto split: option.splits)
  from Cons.IH [OF s1(2)] processLine_keys [OF s1(1)] show ?case
    by (auto split: option.splits)
qed

subsection \<open>The fields are the sums\<close>

lemma lookupField_snoc:
  "(\<And>f. getField f tmp = 0) \<Longrightarrow>
   lookupField (al @ [(k, tmp)]) p f = lookupField al p f"
  by (auto simp: lookupField_def map_of_snoc simp del: map_of_append split: option.splits)

lemma lookupField_map_entry:
  "map_of al q \<noteq> None \<Longrightarrow>
   lookupField (AList.map_entry q (addField g v) al) p f =
     lookupField al p f + (if p = q \<and> f = g then v else 0)"
  by (auto simp: lookupField_def AList.map_of_map_entry getField_addField split: option.splits)

lemma fieldSum_Nil: "fieldSum [] p f = 0"
  by (simp add: fieldSum_def)

lemma fieldSum_Cons:
  "fieldSum ((q, g, v) # es) p f = (if q = p \<and> g = f then 1024 * v else 0) + fieldSum es p f"
  by (simp add: fieldSum_def)

lemma saturated_Nil: "saturated [] = []"
  by (simp add: saturated_def)

lemma saturated_Cons: "saturated ((q, g, v) # es) = (q, g, min v maxInt64) # saturated es"
  by (simp add: saturated_def)

lemma scanLoop_fields:
  "wellFormed s \<Longrightarrow> scanLoop s ls = Some s' \<Longrightarrow>
   lookupField (aggregatedSmaps s') p f =
     lookupField (aggregatedSmaps s) p f
       + word_of_int (fieldSum (saturated (attributed (mapping s) ls)) p f)"
proof (induction ls arbitrary: s)
  case Nil
  then show ?case by (simp add: saturated_Nil fieldSum_Nil)
next
  case (Cons l ls)
  from Cons.prems(2) obtain s1 where s1: "processLine s l = Some s1" "scanLoop s1 ls = Some s'"
    by (auto split: option.splits)
  from Cons.prems(1) s1(1) have wf1: "wellFormed s1" by (rule processLine_wellFormed)
  note IH = Cons.IH [OF wf1 s1(2)]
  show ?case
  proof (cases "headerKey l")
    case (Some q)
    from processLine_header [OF Some, of s] s1(1) obtain tmp where
      tmp: "\<And>f. getField f tmp = 0" and
      s1_eq: "s1 = (if map_of (aggregatedSmaps s) q = None
                then s\<lparr>aggregatedSmaps := aggregatedSmaps s @ [(q, tmp)], mapping := Some q\<rparr>
                else s\<lparr>mapping := Some q\<rparr>)"
      by auto
    from s1_eq have m1: "mapping s1 = Some q" by (simp split: if_splits)
    from s1_eq tmp have "lookupField (aggregatedSmaps s1) p f = lookupField (aggregatedSmaps s) p f"
      by (simp add: lookupField_snoc split: if_splits)
    with IH m1 Some show ?thesis by simp
  next
    case None
    show ?thesis
    proof (cases "kvEntry l")
      case None
      with \<open>headerKey l = None\<close> s1(1) have "s1 = s" by (simp add: processLine_other)
      with IH None \<open>headerKey l = None\<close> show ?thesis by simp
    next
      case (Some fv)
      obtain g v where fv: "fv = (g, v)" by (cases fv)
      with Some \<open>headerKey l = None\<close> s1(1) obtain q where
        q: "mapping s = Some q" and
        s1_eq: "s1 = s\<lparr>aggregatedSmaps :=
           AList.map_entry q (addField g (word_of_int (min v maxInt64) * 1024)) (aggregatedSmaps s)\<rparr>"
        by (auto simp: processLine_kv split: option.splits)
      from q Cons.prems(1) have dom: "map_of (aggregatedSmaps s) q \<noteq> None"
        by (auto simp: wellFormed_def dest: map_of_SomeD)
      from s1_eq q have m1: "mapping s1 = Some q" by simp
      have step: "lookupField (aggregatedSmaps s1) p f =
          lookupField (aggregatedSmaps s) p f
            + (if p = q \<and> f = g then word_of_int (min v maxInt64) * 1024 else 0)"
        using s1_eq dom by (simp add: lookupField_map_entry)
      have att: "attributed (mapping s) (l # ls) = (q, g, v) # attributed (Some q) ls"
        using Some fv q \<open>headerKey l = None\<close> by simp
      show ?thesis
        unfolding att saturated_Cons fieldSum_Cons
        using IH m1 step by (simp add: algebra_simps)
    qed
  qed
qed

subsection \<open>The header fields are those of the first header line\<close>





subsection \<open>From the loop to ParseSmaps\<close>

lemma ParseSmaps_Inr:
  assumes "ParseSmaps rd = Inr rs"
  shows "\<exists>s'. scanLoop initState (scanLines rd) = Some s' \<and> wellFormed s'
          \<and> rs = map snd (aggregatedSmaps s')"
proof -
  from assms obtain s' where s': "scanLoop initState (scanLines rd) = Some s'"
     "rs = map snd (aggregatedSmaps s')"
    by (auto simp: ParseSmaps_def split: option.splits)
  from wellFormed_init s'(1) have "wellFormed s'" by (rule scanLoop_wellFormed)
  with s' show ?thesis by blast
qed

lemma wellFormed_paths:
  "list_all (\<lambda>km. Path (snd km) = fst km) al \<Longrightarrow> map Path (map snd al) = map fst al"
  by (induction al) auto

lemma wellFormed_lookup:
  assumes "wellFormed s" and "r \<in> set (map snd (aggregatedSmaps s))"
  shows "map_of (aggregatedSmaps s) (Path r) = Some r"
proof -
  from assms(2) obtain k where k: "(k, r) \<in> set (aggregatedSmaps s)" by auto
  with assms(1) have "Path r = k" by (auto simp: wellFormed_def list_all_iff)
  moreover from assms(1) k have "map_of (aggregatedSmaps s) k = Some r"
    by (simp add: wellFormed_def)
  ultimately show ?thesis by simp
qed

subsection \<open>Values and sums\<close>

lemma digitVal_nonneg: "isDigit c \<Longrightarrow> 0 \<le> digitVal c"
  by (auto simp: isDigit_def digitVal_def)

lemma foldl_decimal_nonneg:
  "0 \<le> n \<Longrightarrow> list_all isDigit s \<Longrightarrow> 0 \<le> foldl (\<lambda>n c. 10 * n + digitVal c) n s"
  by (induction s arbitrary: n) (auto simp: digitVal_nonneg)

lemma decimal_nonneg: "list_all isDigit s \<Longrightarrow> 0 \<le> decimal s"
  by (simp add: decimal_def foldl_decimal_nonneg)

lemma rePlus_Some: "rePlus P s = Some (a, r) \<Longrightarrow> a \<noteq> [] \<and> list_all P a \<and> s = a @ r"
  by (auto simp: rePlus_def list_all_iff split: if_splits dest: set_takeWhileD)

lemma reLit_Some: "reLit p s = Some r \<Longrightarrow> s = p @ r"
  by (auto simp: reLit_def prefix_def split: if_splits)

lemma kvRe_digits: "kvRe line = Some kv \<Longrightarrow> list_all isDigit (kv ! 2)"
  by (auto simp: kvRe_def bind_eq_Some_conv dest!: rePlus_Some)

lemma kvEntry_nonneg: "kvEntry line = Some (f, v) \<Longrightarrow> 0 \<le> v"
  by (auto simp: kvEntry_def decimal_nonneg kvRe_digits split: option.splits)

lemma attributed_nonneg: "e \<in> set (attributed cur ls) \<Longrightarrow> 0 \<le> snd (snd e)"
proof (induction ls arbitrary: cur)
  case Nil
  then show ?case by simp
next
  case (Cons l ls)
  then show ?case
    by (cases "kvEntry l") (auto split: option.splits dest: kvEntry_nonneg [of l])
qed

lemma fieldSum_nonneg: "(\<And>e. e \<in> set es \<Longrightarrow> 0 \<le> snd (snd e)) \<Longrightarrow> 0 \<le> fieldSum es p f"
  by (induction es) (auto simp: fieldSum_def)

lemma fieldSum_saturated:
  assumes "\<And>e. e \<in> set es \<Longrightarrow> 0 \<le> snd (snd e)" and "fieldSum es p f < 2 ^ 63"
  shows "fieldSum (saturated es) p f = fieldSum es p f"
  using assms
proof (induction es)
  case Nil
  then show ?case by (simp add: saturated_def)
next
  case (Cons e es)
  obtain q g v where e: "e = (q, g, v)" by (cases e)
  from Cons.prems(1) have nn: "\<And>e. e \<in> set es \<Longrightarrow> 0 \<le> snd (snd e)" by simp
  from Cons.prems(1) [of e] have v: "0 \<le> v" by (simp add: e)
  from nn have rest: "0 \<le> fieldSum es p f" by (rule fieldSum_nonneg)
  from Cons.prems(2) v have "fieldSum es p f < 2 ^ 63"
    by (simp add: e fieldSum_Cons split: if_splits)
  with nn have IH: "fieldSum (saturated es) p f = fieldSum es p f" by (rule Cons.IH)
  show ?case
  proof (cases "q = p \<and> g = f")
    case True
    with Cons.prems(2) rest have "1024 * v < 2 ^ 63" by (simp add: e fieldSum_Cons)
    then have "min v maxInt64 = v" by (simp add: maxInt64_def)
    with IH show ?thesis by (simp add: e saturated_Cons fieldSum_Cons)
  next
    case False
    with IH show ?thesis by (auto simp: e saturated_Cons fieldSum_Cons)
  qed
qed

lemma sint_word_of_int_small:
  "0 \<le> x \<Longrightarrow> x < 2 ^ 63 \<Longrightarrow> sint (word_of_int x :: int64) = x"
  by (simp add: sint_sbintrunc' signed_take_bit_int_eq_self)

text \<open>The fields of the records returned, in machine arithmetic and as integers.\<close>

lemma ParseSmaps_field:
  assumes "ParseSmaps rd = Inr rs" and "r \<in> set rs"
  shows "getField f r =
    word_of_int (fieldSum (saturated (attributed None (scanLines rd))) (Path r) f)"
proof -
  from ParseSmaps_Inr [OF assms(1)] obtain s' where
    s': "scanLoop initState (scanLines rd) = Some s'" "wellFormed s'"
        "rs = map snd (aggregatedSmaps s')"
    by blast
  from s'(2) assms(2) s'(3) have "map_of (aggregatedSmaps s') (Path r) = Some r"
    by (simp add: wellFormed_lookup)
  then have "lookupField (aggregatedSmaps s') (Path r) f = getField f r"
    by (simp add: lookupField_def)
  moreover from scanLoop_fields [OF wellFormed_init s'(1), of "Path r" f]
  have "lookupField (aggregatedSmaps s') (Path r) f =
      word_of_int (fieldSum (saturated (attributed None (scanLines rd))) (Path r) f)"
    by (simp add: initState_def lookupField_def)
  ultimately show ?thesis by simp
qed

lemma ParseSmaps_field_exact:
  assumes "ParseSmaps rd = Inr rs" and "r \<in> set rs"
    and "fieldSum (attributed None (scanLines rd)) (Path r) f < 2 ^ 63"
  shows "sint (getField f r) = fieldSum (attributed None (scanLines rd)) (Path r) f"
proof -
  let ?es = "attributed None (scanLines rd)"
  have nn: "\<And>e. e \<in> set ?es \<Longrightarrow> 0 \<le> snd (snd e)" by (rule attributed_nonneg)
  from nn assms(3) have "fieldSum (saturated ?es) (Path r) f = fieldSum ?es (Path r) f"
    by (rule fieldSum_saturated)
  with ParseSmaps_field [OF assms(1,2), of f]
  have "getField f r = word_of_int (fieldSum ?es (Path r) f)" by simp
  moreover from nn have "0 \<le> fieldSum ?es (Path r) f" by (rule fieldSum_nonneg)
  ultimately show ?thesis using assms(3) by (simp add: sint_word_of_int_small)
qed

lemma ParseSmaps_paths:
  assumes "ParseSmaps rd = Inr rs"
  shows "distinct (map Path rs)"
    and "set (map Path rs) = {p. \<exists>l\<in>set (scanLines rd). headerKey l = Some p}"
proof -
  from ParseSmaps_Inr [OF assms(1)] obtain s' where
    s': "scanLoop initState (scanLines rd) = Some s'" "wellFormed s'"
        "rs = map snd (aggregatedSmaps s')"
    by blast
  from s'(2) have "list_all (\<lambda>km. Path (snd km) = fst km) (aggregatedSmaps s')"
    by (simp add: wellFormed_def)
  then have eq: "map Path rs = map fst (aggregatedSmaps s')"
    unfolding s'(3) by (rule wellFormed_paths)
  from s'(2) eq show "distinct (map Path rs)" by (simp add: wellFormed_def)
  from scanLoop_keys [OF s'(1)] eq
  show "set (map Path rs) = {p. \<exists>l\<in>set (scanLines rd). headerKey l = Some p}"
    by (simp add: initState_def)
qed

subsection \<open>Evaluations\<close>

lemma ParseSmaps_libcReport: "ParseSmaps libcReport = Inr [libcRecord]"
  by code_simp

lemma ParseSmaps_anonReport: "ParseSmaps anonReport = Inr [anonRecord]"
  by code_simp

lemma headerRe_anonHeader: "headerRe anonHeader = Some anonMatches"
  by code_simp

lemma TrimSpace_anon: "TrimSpace ''[anon]'' = ''[anon]''"
  by code_simp

subsection \<open>The shape of a header match\<close>

lemma reTimes_Some: "reTimes n P s = Some (a, r) \<Longrightarrow> length a = n \<and> s = a @ r"
  by (auto simp: reTimes_def split: if_splits)

lemma headerTail_Some: "headerTail r = Some path \<Longrightarrow> path = dropWhile isReSpace r"
  by (auto simp: headerTail_def split: if_splits)

lemma headerRe_Some:
  assumes "headerRe line = Some ms"
  shows "\<exists>g1 perms off dev inode r.
     ms = [line, g1, perms, off, dev, inode, dropWhile isReSpace r]
     \<and> line = g1 @ '' '' @ perms @ '' '' @ off @ '' '' @ dev @ '' '' @ inode @ r
     \<and> length perms = 4"
  using assms
  by (auto simp: headerRe_def bind_eq_Some_conv
      dest!: rePlus_Some reLit_Some reTimes_Some headerTail_Some)

lemma headerRe_afterInode:
  assumes "headerRe line = Some ms"
  shows "ms ! 6 = dropWhile isReSpace (afterInode ms)" and "length (ms ! 2) = 4"
proof -
  from headerRe_Some [OF assms] obtain g1 perms off dev inode r where
    ms: "ms = [line, g1, perms, off, dev, inode, dropWhile isReSpace r]" and
    line: "line = g1 @ '' '' @ perms @ '' '' @ off @ '' '' @ dev @ '' '' @ inode @ r" and
    len: "length perms = 4"
    by blast
  define pre where "pre = g1 @ '' '' @ perms @ '' '' @ off @ '' '' @ dev @ '' '' @ inode"
  have n: "length g1 + length perms + length off + length dev + length inode + 4 = length pre"
    by (simp add: pre_def)
  have "line = pre @ r" by (simp add: line pre_def)
  then have "drop (length pre) line = r" by simp
  then have "afterInode ms = r"
    unfolding afterInode_def by (simp add: ms n)
  with ms show "ms ! 6 = dropWhile isReSpace (afterInode ms)" by simp
  from ms len show "length (ms ! 2) = 4" by simp
qed


lemma dropWhile_all: "list_all P xs \<Longrightarrow> dropWhile P xs = []"
  by (simp add: list_all_iff)

lemma attributedExact_eq: "unitsExact ls \<Longrightarrow> attributedExact cur ls = attributed cur ls"
proof (induction ls arbitrary: cur)
  case Nil
  then show ?case by simp
next
  case (Cons l ls)
  from Cons.prems have l: "kvEntry l = None \<or> kvExact l" and ls: "unitsExact ls"
    by (simp_all add: unitsExact_def)
  from l have "keyValueLine l = kvEntry l" by (auto simp: keyValueLine_def)
  with Cons.IH [OF ls] show ?case by (simp split: option.splits)
qed

subsection \<open>When the parser returns\<close>

lemma processLine_header_mapping:
  assumes "headerKey line = Some p"
  shows "\<exists>s'. processLine s line = Some s' \<and> mapping s' = Some p"
proof -
  from processLine_header [OF assms, of s] obtain tmp where
    r: "processLine s line =
          Some (if map_of (aggregatedSmaps s) p = None
                then s\<lparr>aggregatedSmaps := aggregatedSmaps s @ [(p, tmp)], mapping := Some p\<rparr>
                else s\<lparr>mapping := Some p\<rparr>)"
    by blast
  show ?thesis
    by (cases "map_of (aggregatedSmaps s) p") (simp_all add: r)
qed

lemma processLine_mapping:
  "processLine s line = Some s' \<Longrightarrow> mapping s \<noteq> None \<Longrightarrow> mapping s' \<noteq> None"
proof (cases "headerKey line")
  case (Some p)
  assume "processLine s line = Some s'"
  with processLine_header_mapping [OF Some, of s] show "mapping s' \<noteq> None" by simp
next
  case None
  assume r: "processLine s line = Some s'" and m: "mapping s \<noteq> None"
  show "mapping s' \<noteq> None"
  proof (cases "kvEntry line")
    case None
    with \<open>headerKey line = None\<close> r m show ?thesis by (simp add: processLine_other)
  next
    case (Some fv)
    obtain f v where "fv = (f, v)" by (cases fv)
    with Some \<open>headerKey line = None\<close> r m show ?thesis
      by (auto simp: processLine_kv split: option.splits)
  qed
qed

lemma processLine_no_panic: "mapping s \<noteq> None \<Longrightarrow> processLine s line \<noteq> None"
proof (cases "headerKey line")
  case (Some p)
  with processLine_header_mapping [OF Some, of s] show ?thesis by auto
next
  case None
  assume m: "mapping s \<noteq> None"
  show ?thesis
  proof (cases "kvEntry line")
    case None
    with \<open>headerKey line = None\<close> show ?thesis by (simp add: processLine_other)
  next
    case (Some fv)
    obtain f v where "fv = (f, v)" by (cases fv)
    with Some \<open>headerKey line = None\<close> m show ?thesis
      by (auto simp: processLine_kv split: option.splits)
  qed
qed

lemma scanLoop_no_panic: "mapping s \<noteq> None \<Longrightarrow> scanLoop s ls \<noteq> None"
proof (induction ls arbitrary: s)
  case Nil
  then show ?case by simp
next
  case (Cons l ls)
  from processLine_no_panic [OF Cons.prems, of l] obtain s1 where
    s1: "processLine s l = Some s1" by auto
  from processLine_mapping [OF s1 Cons.prems] have "mapping s1 \<noteq> None" .
  then have "scanLoop s1 ls \<noteq> None" by (rule Cons.IH)
  with s1 show ?case by simp
qed

lemma scanLoop_beginsWell: "beginsWell ls \<Longrightarrow> mapping s = None \<Longrightarrow> scanLoop s ls \<noteq> None"
proof (induction ls arbitrary: s)
  case Nil
  then show ?case by simp
next
  case (Cons l ls)
  show ?case
  proof (cases "headerKey l")
    case (Some p)
    from processLine_header_mapping [OF Some, of s] obtain s1 where
      s1: "processLine s l = Some s1" and "mapping s1 \<noteq> None"
      by auto
    then show ?thesis using scanLoop_no_panic [of s1 ls] by simp
  next
    case None
    with Cons.prems(1) have kv: "kvEntry l = None" and rest: "beginsWell ls"
      by (cases "kvEntry l"; simp)+
    from None kv have "processLine s l = Some s" by (rule processLine_other)
    with Cons.IH [OF rest Cons.prems(2)] show ?thesis by simp
  qed
qed

text \<open>
  \<open>ParseSmaps\<close> returns a list whenever the reader ends without error, every line is
  shorter than the scanner's buffer and the report begins well; a line that does not
  fit the buffer ends the call without a list.
\<close>

lemma ParseSmaps_returns:
  assumes "\<not> readFails rd" and "list_all fitsBuffer (rawLines [] (content rd))"
    and "beginsWell (scanLines rd)"
  shows "\<exists>rs. ParseSmaps rd = Inr rs"
proof -
  from assms(3) have "scanLoop initState (scanLines rd) \<noteq> None"
    by (rule scanLoop_beginsWell) (simp add: initState_def)
  moreover from assms(1,2) have "scanErr rd = None" by (simp add: scanErr_def)
  ultimately show ?thesis by (auto simp: ParseSmaps_def)
qed

lemma ParseSmaps_line_too_long:
  assumes "\<not> list_all fitsBuffer (rawLines [] (content rd))"
  shows "\<exists>e. ParseSmaps rd = Inl e"
proof -
  from assms have "scanErr rd = Some ErrTooLong" by (simp add: scanErr_def)
  then show ?thesis by (auto simp: ParseSmaps_def split: option.splits)
qed

section \<open>The claims about the report parser\<close>

text \<open>
  C1, as amended. For a report in which no key-value line with a known field name
  continues behind its unit: whenever \<open>ParseSmaps\<close> returns a list, the list holds exactly
  one record for each distinct path among the header lines of the report (the path after
  the anonymous marker has been put in and white space trimmed). Each byte-count field of
  the record is a signed 64-bit integer: it equals, modulo \<open>2^64\<close>, the sum over all
  header lines with that path of 1024 times the values of the key-value lines
  \<open><FieldName>: <decimal> kB\<close> attributed to them, each value cut down to \<open>2^63 - 1\<close>; it
  is that sum itself whenever the sum of 1024 times the values is below \<open>2^63\<close>.
\<close>

theorem ParseSmaps_one_record_per_path:
  assumes "ParseSmaps rd = Inr rs" and "unitsExact (scanLines rd)"
  shows "distinct (map Path rs)
    \<and> set (map Path rs) = {p. \<exists>l\<in>set (scanLines rd). headerKey l = Some p}
    \<and> (\<forall>r\<in>set rs. \<forall>f.
          getField f r =
            word_of_int (fieldSum (saturated (attributedExact None (scanLines rd))) (Path r) f)
          \<and> (fieldSum (attributedExact None (scanLines rd)) (Path r) f < 2 ^ 63 \<longrightarrow>
               sint (getField f r)
                 = fieldSum (attributedExact None (scanLines rd)) (Path r) f))"
  unfolding attributedExact_eq [OF assms(2)]
  using ParseSmaps_paths [OF assms(1)] ParseSmaps_field [OF assms(1)]
    ParseSmaps_field_exact [OF assms(1)]
  by blast

text \<open>
  The report with two header lines of path \<open>/lib/libc.so\<close>, each followed by
  \<open>Rss: 100 kB\<close>, yields one record, with \<open>RssBytes = 204800\<close>.
\<close>

theorem ParseSmaps_one_record_per_path_witness:
  "ParseSmaps libcReport = Inr [libcRecord]
   \<and> unitsExact (scanLines libcReport)
   \<and> Path libcRecord = ''/lib/libc.so''
   \<and> (\<exists>l\<in>set (scanLines libcReport). headerKey l = Some ''/lib/libc.so'')
   \<and> fieldSum (attributedExact None (scanLines libcReport)) ''/lib/libc.so'' FRss = 204800
   \<and> sint (RssBytes libcRecord) = 204800"
proof -
  have u: "unitsExact (scanLines libcReport)" by code_simp
  have p: "Path libcRecord = ''/lib/libc.so''" by code_simp
  have s: "fieldSum (attributedExact None (scanLines libcReport)) ''/lib/libc.so'' FRss = 204800"
    by code_simp
  note inst = ParseSmaps_one_record_per_path [OF ParseSmaps_libcReport u]
  have "Path libcRecord \<in> set (map Path [libcRecord])" by simp
  then have "Path libcRecord \<in> {p. \<exists>l\<in>set (scanLines libcReport). headerKey l = Some p}"
    unfolding inst [THEN conjunct2, THEN conjunct1] .
  then have h: "\<exists>l\<in>set (scanLines libcReport). headerKey l = Some ''/lib/libc.so''"
    unfolding p by (rule CollectD)
  have "libcRecord \<in> set [libcRecord]" by simp
  from inst [THEN conjunct2, THEN conjunct2, rule_format, OF this, of FRss]
  have "fieldSum (attributedExact None (scanLines libcReport)) (Path libcRecord) FRss < 2 ^ 63
      \<Longrightarrow> sint (getField FRss libcRecord) =
        fieldSum (attributedExact None (scanLines libcReport)) (Path libcRecord) FRss"
    by (rule conjunct2 [THEN mp])
  then have "sint (getField FRss libcRecord) = 204800"
    unfolding p s by simp
  then have v: "sint (RssBytes libcRecord) = 204800" by (simp only: getField.simps)
  from ParseSmaps_libcReport u p h s v show ?thesis by (intro conjI)
qed

text \<open>
  The claim as stated fails where a value leaves the 64-bit range: after the key-value
  line \<open>Rss: 9223372036854775808 kB\<close> the sum is \<open>1024 * 2^63\<close> and the field is \<open>-1024\<close>.
\<close>

theorem ParseSmaps_sum_counterexample:
  "ParseSmaps saturatedReport = Inr [addField FRss (- 1024) (newMapping anonMatches)]
   \<and> unitsExact (scanLines saturatedReport)
   \<and> Path (addField FRss (- 1024) (newMapping anonMatches)) = ''[anon]''
   \<and> fieldSum (attributedExact None (scanLines saturatedReport)) ''[anon]'' FRss
       = 1024 * 9223372036854775808
   \<and> sint (RssBytes (addField FRss (- 1024) (newMapping anonMatches))) = - 1024"
  by code_simp

text \<open>
  C7, as amended. A byte-count field of a record returned by \<open>ParseSmaps\<close> is
  non-negative whenever the sum of 1024 times the values attributed to its path and
  field is below \<open>2^63\<close>, so that no addition or multiplication wraps around.
\<close>

theorem ParseSmaps_fields_nonnegative:
  assumes "ParseSmaps rd = Inr rs" and "r \<in> set rs"
    and "fieldSum (attributed None (scanLines rd)) (Path r) f < 2 ^ 63"
  shows "0 \<le> sint (getField f r)"
proof -
  have "0 \<le> fieldSum (attributed None (scanLines rd)) (Path r) f"
    by (rule fieldSum_nonneg) (rule attributed_nonneg)
  with ParseSmaps_field_exact [OF assms] show ?thesis by simp
qed

theorem ParseSmaps_fields_nonnegative_witness:
  "ParseSmaps anonReport = Inr [anonRecord]
   \<and> fieldSum (attributed None (scanLines anonReport)) (Path anonRecord) FRss = 4096
   \<and> 0 \<le> sint (getField FRss anonRecord)"
proof -
  have s: "fieldSum (attributed None (scanLines anonReport)) (Path anonRecord) FRss = 4096"
    by code_simp
  have m: "anonRecord \<in> set [anonRecord]" by simp
  have b: "fieldSum (attributed None (scanLines anonReport)) (Path anonRecord) FRss < 2 ^ 63"
    unfolding s by simp
  from ParseSmaps_fields_nonnegative [OF ParseSmaps_anonReport m b]
  have "0 \<le> sint (getField FRss anonRecord)" .
  with ParseSmaps_anonReport s show ?thesis by (intro conjI)
qed

text \<open>
  The claim as stated fails: after \<open>Rss: 9007199254740992 kB\<close> (\<open>2^53\<close> kB) the product
  with 1024 is \<open>2^63\<close>, and the field is the least 64-bit integer.
\<close>

theorem ParseSmaps_negative_counterexample:
  "ParseSmaps wrappedReport = Inr [addField FRss (- 9223372036854775808) (newMapping anonMatches)]
   \<and> sint (RssBytes (addField FRss (- 9223372036854775808) (newMapping anonMatches))) < 0"
  by code_simp



text \<open>
  C8, as amended. For a header line the parser recognizes in which nothing follows the
  inode, or only white space of the pattern's class \<open>\s\<close> (blank, tab, line feed, form
  feed, carriage return), the record built from the line has the anonymous marker
  \<open>[anon]\<close> as its path, and the list returned holds a record with that path.
\<close>

theorem blank_path_gets_anon_marker:
  assumes "ParseSmaps rd = Inr rs" and "line \<in> set (scanLines rd)"
    and "headerRe line = Some matches" and "list_all isReSpace (afterInode matches)"
  shows "Path (newMapping matches) = ''[anon]'' \<and> ''[anon]'' \<in> set (map Path rs)"
proof -
  from headerRe_afterInode(1) [OF assms(3)] assms(4) have "matches ! 6 = []"
    by (simp add: dropWhile_all)
  then have p: "Path (newMapping matches) = ''[anon]''"
    by (simp add: newMapping_def TrimSpace_anon)
  with assms(3) have "headerKey line = Some ''[anon]''" by (simp add: headerKey_def)
  with assms(2) ParseSmaps_paths(2) [OF assms(1)] have "''[anon]'' \<in> set (map Path rs)"
    by blast
  with p show ?thesis by simp
qed

text \<open>The header line \<open>7f0000-7f1000 rw-p 00000000 00:00 0\<close>, with no path.\<close>

theorem blank_path_gets_anon_marker_witness:
  "ParseSmaps anonReport = Inr [anonRecord] \<and> anonHeader \<in> set (scanLines anonReport)
   \<and> headerRe anonHeader = Some anonMatches \<and> list_all isReSpace (afterInode anonMatches)
   \<and> Path (newMapping anonMatches) = ''[anon]'' \<and> ''[anon]'' \<in> set (map Path [anonRecord])"
proof -
  have l: "anonHeader \<in> set (scanLines anonReport)" by code_simp
  have b: "list_all isReSpace (afterInode anonMatches)" by code_simp
  from blank_path_gets_anon_marker [OF ParseSmaps_anonReport l headerRe_anonHeader b]
    ParseSmaps_anonReport l headerRe_anonHeader b
  show ?thesis by (intro conjI) simp_all
qed

text \<open>
  The claim as stated fails for a trailing path that is blank without being white space
  of \<open>\s\<close>. After the inode of \<open>vtHeader\<close> come a blank and a vertical tab, which
  \<open>TrimSpace\<close> takes for white space altogether; the sixth group is the vertical tab, the
  test \<open>matches[6] != ""\<close> passes, and the path of the record is the trimmed group: the
  empty string, not the marker.
\<close>

theorem blank_path_counterexample:
  "headerRe vtHeader = Some vtMatches
   \<and> afterInode vtMatches = [CHR 0x20, CHR 0x0B]
   \<and> TrimSpace (afterInode vtMatches) = []
   \<and> ParseSmaps (report [vtHeader]) = Inr [newMapping vtMatches]
   \<and> Path (newMapping vtMatches) = []
   \<and> Path (newMapping vtMatches) \<noteq> ''[anon]''"
  by code_simp

text \<open>
  C2. The claim says that \<open>ParseSmaps\<close> returns a result for every input that can be
  read. On the report whose only line is \<open>Rss: 4 kB\<close> the call does not return: the
  branch of the \<open>switch\<close> dereferences \<open>mapping\<close>, which is still \<open>nil\<close>.
\<close>

theorem ParseSmaps_panics_without_header:
  "ParseSmaps (report [''Rss: 4 kB'']) = Inl NilPointerDereference"
  by code_simp

text \<open>
  C6. The claim says that a key-value line whose unit is not exactly \<open>kB\<close> leaves the
  field unchanged. \<open>kvRe\<close> has no anchor at its end: it matches the first eleven bytes
  of \<open>Rss: 100 kBytes\<close>, and 102400 is added to \<open>RssBytes\<close>.
\<close>

theorem ParseSmaps_accepts_longer_unit:
  "kvRe ''Rss: 100 kBytes'' = Some [''Rss: 100 kB'', ''Rss'', ''100'']
   \<and> ParseSmaps (report [anonHeader, ''Rss: 100 kBytes''])
       = Inr [addField FRss 102400 (newMapping anonMatches)]
   \<and> RssBytes (addField FRss 102400 (newMapping anonMatches)) = 102400"
  by code_simp

text \<open>A value that is not a decimal number is not matched, and nothing is added.\<close>

lemma ParseSmaps_ignores_non_numeric:
  "kvRe ''Rss: abc kB'' = None
   \<and> ParseSmaps (report [anonHeader, ''Rss: abc kB'']) = Inr [newMapping anonMatches]"
  by code_simp

section \<open>The claim about the gauges\<close>

lemma setMetricsFields_all: "set setMetricsFields = UNIV"
proof -
  have "f \<in> set setMetricsFields" for f
    by (cases f) (simp_all add: setMetricsFields_def)
  then show ?thesis by blast
qed

lemma setMetricsFields_distinct: "distinct setMetricsFields"
  by (simp add: setMetricsFields_def)

lemma card_field: "card (UNIV :: field set) = 20"
proof -
  have "card (set setMetricsFields) = length setMetricsFields"
    using setMetricsFields_distinct by (rule distinct_card)
  then show ?thesis by (simp add: setMetricsFields_all) (simp add: setMetricsFields_def)
qed

text \<open>
  C9, as amended. A mapping record carries exactly twenty byte-count fields, and
  \<open>setMetrics\<close> hands exactly twenty observations to the gauges for a record: one for
  each field, each on a gauge of its own, all labelled with the display name and the
  path of the record.
\<close>

theorem setMetrics_twenty_observations:
  "length (setMetrics comm m) = 20
   \<and> distinct (map gauge (setMetrics comm m))
   \<and> map commLabel (setMetrics comm m) = replicate 20 comm
   \<and> map pathLabel (setMetrics comm m) = replicate 20 (Path m)
   \<and> map gaugeValue (setMetrics comm m) = map (\<lambda>f. getField f m) setMetricsFields
   \<and> distinct setMetricsFields
   \<and> card (UNIV :: field set) = 20"
proof -
  have 1: "length (setMetrics comm m) = 20" by (simp add: setMetrics_def)
  have 2: "distinct (map gauge (setMetrics comm m))"
    by (simp add: setMetrics_def observe_def)
  have 3: "map commLabel (setMetrics comm m) = replicate 20 comm"
    by (simp add: setMetrics_def observe_def numeral_eq_Suc)
  have 4: "map pathLabel (setMetrics comm m) = replicate 20 (Path m)"
    by (simp add: setMetrics_def observe_def numeral_eq_Suc)
  have 5: "map gaugeValue (setMetrics comm m) = map (\<lambda>f. getField f m) setMetricsFields"
    by (simp add: setMetrics_def observe_def setMetricsFields_def)
  from 1 2 3 4 5 setMetricsFields_distinct card_field show ?thesis by (intro conjI)
qed

text \<open>The count of the claim as stated, eighteen, is not the count of the code.\<close>

theorem setMetrics_eighteen_counterexample:
  "length (setMetrics ''nginx'' anonRecord) \<noteq> 18 \<and> card (UNIV :: field set) \<noteq> 18"
  by (simp add: card_field) (simp add: setMetrics_def)

section \<open>Properties of the process selector\<close>

subsection \<open>What the loops collect\<close>

lemma set_runningLoop:
  "set (runningLoop cs) = containerId ` {c \<in> set cs. containerState c = CONTAINER_RUNNING}"
  by (induction cs) auto

lemma set_containerLoop:
  "set (containerLoop w container podUIDs) =
    (\<Union>uid\<in>set podUIDs.
       case getContainersForPod w uid container of Inl err \<Rightarrow> {} | Inr cs \<Rightarrow> set (runningLoop cs))"
  by (induction podUIDs) (auto split: sum.splits)

lemma set_pidLoop:
  "set (pidLoop w comm cs) = (\<Union>cid\<in>set cs. set (containerPIDs w comm cid))"
  by (induction cs) auto

lemma stagePods_empty:
  "stagePods w namespace pod = [] \<Longrightarrow> stageContainers w namespace pod container = []"
  by (simp add: stageContainers_def)

lemma stageContainers_empty:
  "stageContainers w namespace pod container = [] \<Longrightarrow>
   stagePIDs w namespace pod container comm = []"
  by (simp add: stagePIDs_def)

lemma GetHostPIDs_stages:
  "GetHostPIDs w namespace pod container comm =
    (case podSandboxes w of
       Inl err \<Rightarrow> Inl (ListPodSandboxFailed err)
     | Inr items \<Rightarrow>
         if stagePods w namespace pod = [] then Inl PodNotFound
         else if stageContainers w namespace pod container = [] then Inl NoRunningContainers
         else if stagePIDs w namespace pod container comm = [] then Inl NoMatchingProcesses
         else Inr (stagePIDs w namespace pod container comm))"
  by (simp add: GetHostPIDs_def stagePods_def stageContainers_def stagePIDs_def Let_def
      split: sum.splits)

lemma GetHostPIDs_Inr_iff:
  "GetHostPIDs w namespace pod container comm = Inr pids \<longleftrightarrow>
    (\<exists>items. podSandboxes w = Inr items) \<and> pids = stagePIDs w namespace pod container comm
      \<and> pids \<noteq> []"
  using stagePods_empty [of w namespace pod container]
    stageContainers_empty [of w namespace pod container comm]
  by (auto simp: GetHostPIDs_stages split: sum.splits)

subsection \<open>One scan gives each number once, and two namespaces share none\<close>


lemma pidNamespaceMatches_getPIDNamespace:
  "pidNamespaceMatches w name ns \<longleftrightarrow> getPIDNamespace w name = Inr ns"
  by (auto simp: pidNamespaceMatches_def getPIDNamespace_def split: option.splits)









subsection \<open>A wildcard lets through whatever a literal lets through\<close>

lemma sandboxLoop_wildcard_namespace:
  "set (sandboxLoop namespace pod items) \<subseteq> set (sandboxLoop ''*'' pod items)"
  by (induction items) auto

lemma sandboxLoop_wildcard_pod:
  "set (sandboxLoop namespace pod items) \<subseteq> set (sandboxLoop namespace ''*'' items)"
  by (induction items) auto

lemma stagePods_wildcard:
  "set (stagePods w namespace pod) \<subseteq> set (stagePods w ''*'' pod)"
  "set (stagePods w namespace pod) \<subseteq> set (stagePods w namespace ''*'')"
  by (cases "podSandboxes w";
      simp add: stagePods_def sandboxLoop_wildcard_namespace sandboxLoop_wildcard_pod)+

lemma getContainersForPod_wildcard:
  "(case getContainersForPod w uid container of Inl err \<Rightarrow> {} | Inr cs \<Rightarrow> set (runningLoop cs))
   \<subseteq> (case getContainersForPod w uid ''*'' of Inl err \<Rightarrow> {} | Inr cs \<Rightarrow> set (runningLoop cs))"
  by (auto simp: getContainersForPod_def ListContainers_def labelOf_def labelsMatch_def
      set_runningLoop)

lemma containerLoop_wildcard:
  "set (containerLoop w container podUIDs) \<subseteq> set (containerLoop w ''*'' podUIDs)"
  unfolding set_containerLoop using getContainersForPod_wildcard by fast

lemma containerLoop_mono:
  "set podUIDs \<subseteq> set podUIDs' \<Longrightarrow>
   set (containerLoop w container podUIDs) \<subseteq> set (containerLoop w container podUIDs')"
  unfolding set_containerLoop by blast

lemma procLoop_wildcard:
  "set (procLoop w ns comm es) \<subseteq> set (procLoop w ns ''*'' es)"
  by (induction es) (auto split: option.splits)

lemma findPIDs_wildcard:
  "set (findPIDsInPIDNamespace w ns comm) \<subseteq> set (findPIDsInPIDNamespace w ns ''*'')"
  by (cases "procDir w") (simp_all add: findPIDsInPIDNamespace_def procLoop_wildcard)

lemma containerPIDs_wildcard:
  "set (containerPIDs w comm cid) \<subseteq> set (containerPIDs w ''*'' cid)"
proof (cases "getInitPIDFromContainerd w cid")
  case (Inl err)
  then show ?thesis by (simp add: containerPIDs_def)
next
  case (Inr initPID)
  then show ?thesis
    by (cases "getPIDNamespace w initPID") (simp_all add: containerPIDs_def findPIDs_wildcard)
qed

lemma pidLoop_wildcard:
  "set (pidLoop w comm cids) \<subseteq> set (pidLoop w ''*'' cids)"
  unfolding set_pidLoop using containerPIDs_wildcard by fast

lemma pidLoop_mono:
  "set cids \<subseteq> set cids' \<Longrightarrow> set (pidLoop w comm cids) \<subseteq> set (pidLoop w comm cids')"
  unfolding set_pidLoop by blast

lemma stagePIDs_wildcard_namespace:
  "set (stagePIDs w namespace pod container comm) \<subseteq> set (stagePIDs w ''*'' pod container comm)"
  unfolding stagePIDs_def stageContainers_def
  by (intro pidLoop_mono containerLoop_mono stagePods_wildcard(1))

lemma stagePIDs_wildcard_pod:
  "set (stagePIDs w namespace pod container comm) \<subseteq> set (stagePIDs w namespace ''*'' container comm)"
  unfolding stagePIDs_def stageContainers_def
  by (intro pidLoop_mono containerLoop_mono stagePods_wildcard(2))

lemma stagePIDs_wildcard_container:
  "set (stagePIDs w namespace pod container comm) \<subseteq> set (stagePIDs w namespace pod ''*'' comm)"
  unfolding stagePIDs_def stageContainers_def
  by (intro pidLoop_mono containerLoop_wildcard)

lemma stagePIDs_wildcard_comm:
  "set (stagePIDs w namespace pod container comm) \<subseteq> set (stagePIDs w namespace pod container ''*'')"
  unfolding stagePIDs_def by (rule pidLoop_wildcard)

lemma GetHostPIDs_superset:
  assumes "GetHostPIDs w namespace pod container comm = Inr pids" and "p \<in> set pids"
    and "set (stagePIDs w namespace pod container comm)
          \<subseteq> set (stagePIDs w namespace' pod' container' comm')"
  shows "\<exists>pids'. GetHostPIDs w namespace' pod' container' comm' = Inr pids' \<and> p \<in> set pids'"
proof -
  from assms(1) obtain items where items: "podSandboxes w = Inr items"
    and pids: "pids = stagePIDs w namespace pod container comm"
    by (auto simp: GetHostPIDs_Inr_iff)
  from assms(2,3) pids have p: "p \<in> set (stagePIDs w namespace' pod' container' comm')" by auto
  then have "stagePIDs w namespace' pod' container' comm' \<noteq> []" by auto
  with items have "GetHostPIDs w namespace' pod' container' comm'
      = Inr (stagePIDs w namespace' pod' container' comm')"
    by (auto simp: GetHostPIDs_Inr_iff)
  with p show ?thesis by blast
qed



section \<open>The claims about the process selector\<close>

text \<open>
  C3, as amended. \<open>GetHostPIDs\<close> returns an error if and only if the call
  \<open>ListPodSandbox\<close> fails or one of its stage results is empty: the error of the call
  as it is; \<open>PodNotFound\<close> when no sandbox passes the namespace and pod filters;
  \<open>NoRunningContainers\<close> when some sandbox passes and the running containers of the
  matching pods are none; \<open>NoMatchingProcesses\<close> when there are such containers and
  the process identifiers collected from them are none. A container that contributes
  processes makes the call succeed with its processes in the result, whatever fails for
  the other containers; and a result returned without error is not empty.
\<close>

theorem GetHostPIDs_error_cases:
  "(\<forall>err. podSandboxes w = Inl err \<longrightarrow>
       GetHostPIDs w namespace pod container comm = Inl (ListPodSandboxFailed err))
   \<and> (\<forall>items. podSandboxes w = Inr items \<longrightarrow>
       (isl (GetHostPIDs w namespace pod container comm) \<longleftrightarrow>
          stagePods w namespace pod = [] \<or> stageContainers w namespace pod container = []
          \<or> stagePIDs w namespace pod container comm = [])
       \<and> (GetHostPIDs w namespace pod container comm = Inl PodNotFound \<longleftrightarrow>
            stagePods w namespace pod = [])
       \<and> (GetHostPIDs w namespace pod container comm = Inl NoRunningContainers \<longleftrightarrow>
            stagePods w namespace pod \<noteq> [] \<and> stageContainers w namespace pod container = [])
       \<and> (GetHostPIDs w namespace pod container comm = Inl NoMatchingProcesses \<longleftrightarrow>
            stageContainers w namespace pod container \<noteq> []
            \<and> stagePIDs w namespace pod container comm = [])
       \<and> (\<forall>good\<in>set (stageContainers w namespace pod container).
            containerPIDs w comm good \<noteq> [] \<longrightarrow>
            (\<exists>pids. GetHostPIDs w namespace pod container comm = Inr pids
               \<and> set (containerPIDs w comm good) \<subseteq> set pids)))
   \<and> (\<forall>pids. GetHostPIDs w namespace pod container comm = Inr pids \<longrightarrow>
         pids \<noteq> [] \<and> pids = stagePIDs w namespace pod container comm)"
proof (intro conjI allI impI)
  fix err assume "podSandboxes w = Inl err"
  then show "GetHostPIDs w namespace pod container comm = Inl (ListPodSandboxFailed err)"
    by (simp add: GetHostPIDs_stages)
next
  fix items assume items: "podSandboxes w = Inr items"
  note empty = stagePods_empty [of w namespace pod container]
    stageContainers_empty [of w namespace pod container comm]
  from items empty
  show "isl (GetHostPIDs w namespace pod container comm) \<longleftrightarrow>
          stagePods w namespace pod = [] \<or> stageContainers w namespace pod container = []
          \<or> stagePIDs w namespace pod container comm = []"
    by (auto simp: GetHostPIDs_stages)
  from items
  show "GetHostPIDs w namespace pod container comm = Inl PodNotFound \<longleftrightarrow>
            stagePods w namespace pod = []"
    by (simp add: GetHostPIDs_stages)
  from items empty
  show "GetHostPIDs w namespace pod container comm = Inl NoRunningContainers \<longleftrightarrow>
            stagePods w namespace pod \<noteq> [] \<and> stageContainers w namespace pod container = []"
    by (auto simp: GetHostPIDs_stages)
  from items empty
  show "GetHostPIDs w namespace pod container comm = Inl NoMatchingProcesses \<longleftrightarrow>
            stageContainers w namespace pod container \<noteq> []
            \<and> stagePIDs w namespace pod container comm = []"
    by (auto simp: GetHostPIDs_stages)
next
  fix items assume items: "podSandboxes w = Inr items"
  show "\<forall>good\<in>set (stageContainers w namespace pod container).
            containerPIDs w comm good \<noteq> [] \<longrightarrow>
            (\<exists>pids. GetHostPIDs w namespace pod container comm = Inr pids
               \<and> set (containerPIDs w comm good) \<subseteq> set pids)"
  proof (intro ballI impI)
    fix good
    assume good: "good \<in> set (stageContainers w namespace pod container)"
      and some: "containerPIDs w comm good \<noteq> []"
    from good have sub:
      "set (containerPIDs w comm good) \<subseteq> set (stagePIDs w namespace pod container comm)"
      by (auto simp: stagePIDs_def set_pidLoop)
    with some have "stagePIDs w namespace pod container comm \<noteq> []" by auto
    with items have "GetHostPIDs w namespace pod container comm
        = Inr (stagePIDs w namespace pod container comm)"
      by (auto simp: GetHostPIDs_Inr_iff)
    with sub show "\<exists>pids. GetHostPIDs w namespace pod container comm = Inr pids
                 \<and> set (containerPIDs w comm good) \<subseteq> set pids" by blast
  qed
next
  fix pids assume r: "GetHostPIDs w namespace pod container comm = Inr pids"
  then show "pids \<noteq> []" by (auto simp: GetHostPIDs_Inr_iff)
  from r show "pids = stagePIDs w namespace pod container comm"
    by (auto simp: GetHostPIDs_Inr_iff)
qed

text \<open>
  In \<open>downWorld\<close> the listing fails. In \<open>separateWorld\<close> containerd has no task for the
  container \<open>c3\<close>, and the container \<open>c1\<close> contributes the processes 100 and 101.
\<close>

theorem GetHostPIDs_error_cases_witness:
  "podSandboxes downWorld = Inl ''rpc error: connection refused''
   \<and> GetHostPIDs downWorld ''default'' ''*'' ''*'' ''*''
       = Inl (ListPodSandboxFailed ''rpc error: connection refused'')
   \<and> podSandboxes separateWorld = Inr exampleSandboxes
   \<and> ''c3'' \<in> set (stageContainers separateWorld ''default'' ''*'' ''*'')
   \<and> isl (getInitPIDFromContainerd separateWorld ''c3'')
   \<and> ''c1'' \<in> set (stageContainers separateWorld ''default'' ''*'' ''*'')
   \<and> containerPIDs separateWorld ''*'' ''c1'' = [100, 101]
   \<and> (\<exists>pids. GetHostPIDs separateWorld ''default'' ''*'' ''*'' ''*'' = Inr pids
         \<and> set (containerPIDs separateWorld ''*'' ''c1'') \<subseteq> set pids)
   \<and> \<not> isl (GetHostPIDs separateWorld ''default'' ''*'' ''*'' ''*'')
   \<and> stagePIDs separateWorld ''default'' ''*'' ''*'' ''*'' \<noteq> []"
proof -
  note down = GetHostPIDs_error_cases [of downWorld "''default''" "''*''" "''*''" "''*''"]
  note sep = GetHostPIDs_error_cases [of separateWorld "''default''" "''*''" "''*''" "''*''"]
  have d: "podSandboxes downWorld = Inl ''rpc error: connection refused''" by code_simp
  from down [THEN conjunct1, rule_format, OF d]
  have 1: "GetHostPIDs downWorld ''default'' ''*'' ''*'' ''*''
       = Inl (ListPodSandboxFailed ''rpc error: connection refused'')" .
  have s: "podSandboxes separateWorld = Inr exampleSandboxes" by code_simp
  have bad: "''c3'' \<in> set (stageContainers separateWorld ''default'' ''*'' ''*'')" by code_simp
  have fails: "isl (getInitPIDFromContainerd separateWorld ''c3'')" by code_simp
  have good: "''c1'' \<in> set (stageContainers separateWorld ''default'' ''*'' ''*'')" by code_simp
  have c1: "containerPIDs separateWorld ''*'' ''c1'' = [100, 101]" by code_simp
  then have ne: "containerPIDs separateWorld ''*'' ''c1'' \<noteq> []" by simp
  note items = sep [THEN conjunct2, THEN conjunct1, rule_format, OF s]
  from items [THEN conjunct2, THEN conjunct2, THEN conjunct2, THEN conjunct2, rule_format,
      OF good ne]
  have 2: "\<exists>pids. GetHostPIDs separateWorld ''default'' ''*'' ''*'' ''*'' = Inr pids
         \<and> set (containerPIDs separateWorld ''*'' ''c1'') \<subseteq> set pids" .
  then have 3: "\<not> isl (GetHostPIDs separateWorld ''default'' ''*'' ''*'' ''*'')" by auto
  from 2 obtain pids where p: "GetHostPIDs separateWorld ''default'' ''*'' ''*'' ''*'' = Inr pids"
    by blast
  from sep [THEN conjunct2, THEN conjunct2, rule_format, OF p]
  have 4: "stagePIDs separateWorld ''default'' ''*'' ''*'' ''*'' \<noteq> []" by blast
  from d 1 s bad fails good c1 2 3 4 show ?thesis by (intro conjI)
qed

text \<open>
  The claim as stated fails where \<open>ListPodSandbox\<close> fails: its error is returned, and it
  is none of the three errors of an empty stage.
\<close>

theorem GetHostPIDs_error_counterexample:
  "GetHostPIDs downWorld ''default'' ''*'' ''*'' ''*''
     = Inl (ListPodSandboxFailed ''rpc error: connection refused'')
   \<and> GetHostPIDs downWorld ''default'' ''*'' ''*'' ''*'' \<noteq> Inl PodNotFound
   \<and> GetHostPIDs downWorld ''default'' ''*'' ''*'' ''*'' \<noteq> Inl NoRunningContainers
   \<and> GetHostPIDs downWorld ''default'' ''*'' ''*'' ''*'' \<noteq> Inl NoMatchingProcesses"
  by code_simp




text \<open>
  It fails as well where the pod of a single matching container is listed twice: the
  container is collected twice and scanned twice.
\<close>

lemma GetHostPIDs_pod_listed_twice:
  "stageContainers twiceListedWorld ''default'' ''web-1'' ''web'' = [''c1'', ''c1'']
   \<and> GetHostPIDs twiceListedWorld ''default'' ''web-1'' ''web'' ''*'' = Inr [100, 101, 100, 101]"
  by code_simp

text \<open>
  C5. For each of the four selector fields: a process identifier that the resolution
  returns with the field set to a literal value is also returned, in the same world,
  with the field set to the wildcard \<open>*\<close> and the other fields unchanged.
\<close>

theorem GetHostPIDs_wildcard_monotone:
  assumes "GetHostPIDs w namespace pod container comm = Inr pids" and "p \<in> set pids"
  shows "(\<exists>pids'. GetHostPIDs w ''*'' pod container comm = Inr pids' \<and> p \<in> set pids')
    \<and> (\<exists>pids'. GetHostPIDs w namespace ''*'' container comm = Inr pids' \<and> p \<in> set pids')
    \<and> (\<exists>pids'. GetHostPIDs w namespace pod ''*'' comm = Inr pids' \<and> p \<in> set pids')
    \<and> (\<exists>pids'. GetHostPIDs w namespace pod container ''*'' = Inr pids' \<and> p \<in> set pids')"
  using GetHostPIDs_superset [OF assms stagePIDs_wildcard_namespace]
    GetHostPIDs_superset [OF assms stagePIDs_wildcard_pod]
    GetHostPIDs_superset [OF assms stagePIDs_wildcard_container]
    GetHostPIDs_superset [OF assms stagePIDs_wildcard_comm]
  by (intro conjI)

text \<open>
  The process 100 of \<open>separateWorld\<close> is found by the selector
  \<open>default/web-1/web/nginx\<close>, whose four values it carries, and by the four selectors
  with one wildcard.
\<close>

theorem GetHostPIDs_wildcard_monotone_witness:
  "GetHostPIDs separateWorld ''default'' ''web-1'' ''web'' ''nginx'' = Inr [100, 101]
   \<and> 100 \<in> set [100, 101 :: int]
   \<and> (\<exists>pids'. GetHostPIDs separateWorld ''*'' ''web-1'' ''web'' ''nginx'' = Inr pids'
         \<and> 100 \<in> set pids')
   \<and> (\<exists>pids'. GetHostPIDs separateWorld ''default'' ''*'' ''web'' ''nginx'' = Inr pids'
         \<and> 100 \<in> set pids')
   \<and> (\<exists>pids'. GetHostPIDs separateWorld ''default'' ''web-1'' ''*'' ''nginx'' = Inr pids'
         \<and> 100 \<in> set pids')
   \<and> (\<exists>pids'. GetHostPIDs separateWorld ''default'' ''web-1'' ''web'' ''*'' = Inr pids'
         \<and> 100 \<in> set pids')"
proof -
  have r: "GetHostPIDs separateWorld ''default'' ''web-1'' ''web'' ''nginx'' = Inr [100, 101]"
    by code_simp
  have m: "100 \<in> set [100, 101 :: int]" by simp
  note t = GetHostPIDs_wildcard_monotone [OF r m]
  from r m t [THEN conjunct1] t [THEN conjunct2, THEN conjunct1]
    t [THEN conjunct2, THEN conjunct2, THEN conjunct1]
    t [THEN conjunct2, THEN conjunct2, THEN conjunct2]
  show ?thesis by (intro conjI)
qed

end
